theory Spec2Isabelle
  imports Complex_Main "HOL-Library.Multiset"
begin

section \<open>Timestamps\<close>

text \<open>
  A Python \<open>datetime\<close>: the seven calendar fields and the UTC offset of its
  \<open>tzinfo\<close> in whole minutes (\<open>None\<close> for an offset-naive value, which is what
  \<open>datetime.now()\<close> returns in every scraper). Python only builds values whose
  fields are in range; \<open>valid_datetime\<close> is that range condition.
\<close>

record datetime =
  year :: nat
  month :: nat
  day :: nat
  hour :: nat
  minute :: nat
  second :: nat
  microsecond :: nat
  utcoffset :: "int option"

definition is_leap :: "nat \<Rightarrow> bool" where
  "is_leap y = (y mod 4 = 0 \<and> (y mod 100 \<noteq> 0 \<or> y mod 400 = 0))"

definition days_in_month :: "nat \<Rightarrow> nat \<Rightarrow> nat" where
  "days_in_month y m =
     (if m = 2 then (if is_leap y then 29 else 28)
      else if m = 4 \<or> m = 6 \<or> m = 9 \<or> m = 11 then 30 else 31)"

definition valid_offset :: "int option \<Rightarrow> bool" where
  "valid_offset off = (case off of None \<Rightarrow> True | Some m \<Rightarrow> - 1440 < m \<and> m < 1440)"

definition valid_datetime :: "datetime \<Rightarrow> bool" where
  "valid_datetime d =
     (1 \<le> year d \<and> year d \<le> 9999 \<and> 1 \<le> month d \<and> month d \<le> 12 \<and>
      1 \<le> day d \<and> day d \<le> days_in_month (year d) (month d) \<and>
      hour d < 24 \<and> minute d < 60 \<and> second d < 60 \<and> microsecond d < 1000000 \<and>
      valid_offset (utcoffset d))"

subsection \<open>\<open>datetime.isoformat\<close>\<close>

definition digit_char :: "nat \<Rightarrow> char" where
  "digit_char n = char_of (48 + n)"

text \<open>\<open>zpad w v\<close> is \<open>"%0wd" % v\<close> for a value of at most \<open>w\<close> digits.\<close>

fun zpad :: "nat \<Rightarrow> nat \<Rightarrow> string" where
  "zpad 0 v = []"
| "zpad (Suc w) v = zpad w (v div 10) @ [digit_char (v mod 10)]"

definition format_offset :: "int option \<Rightarrow> string" where
  "format_offset off =
     (case off of
        None \<Rightarrow> []
      | Some m \<Rightarrow>
          (if m < 0 then ''-'' else ''+'') @
          zpad 2 (nat \<bar>m\<bar> div 60) @ '':'' @ zpad 2 (nat \<bar>m\<bar> mod 60))"

definition format_time :: "datetime \<Rightarrow> string" where
  "format_time d =
     zpad 2 (hour d) @ '':'' @ zpad 2 (minute d) @ '':'' @ zpad 2 (second d) @
     (if microsecond d \<noteq> 0 then ''.'' @ zpad 6 (microsecond d) else [])"

definition format_date :: "datetime \<Rightarrow> string" where
  "format_date d = zpad 4 (year d) @ ''-'' @ zpad 2 (month d) @ ''-'' @ zpad 2 (day d)"

definition isoformat :: "datetime \<Rightarrow> string" where
  "isoformat d = format_date d @ ''T'' @ format_time d @ format_offset (utcoffset d)"

subsection \<open>Reading \<open>isoformat\<close> text back\<close>

text \<open>
  \<open>fromisoformat\<close> reads the strings that \<open>isoformat\<close> writes, and the same with a
  shorter time part: \<open>YYYY-MM-DD[*HH[:MM[:SS[.fff[fff]]]][+HH:MM]]\<close>, where \<open>*\<close> is
  any one character; \<open>None\<close> is a string outside this grammar. Python's
  \<open>datetime.fromisoformat\<close> reads each of these strings to the same value. Which
  further strings it reads depends on the Python version (offsets with seconds, \<open>Z\<close>,
  other fraction lengths, the basic format), so the loading functions below take the
  reader as a parameter \<open>parse\<close>, with \<open>None\<close> for the \<open>ValueError\<close> it raises.
\<close>

definition digit_val :: "char \<Rightarrow> nat option" where
  "digit_val c =
     (let n = (of_char c :: nat) in if 48 \<le> n \<and> n \<le> 57 then Some (n - 48) else None)"

fun digits_val :: "nat \<Rightarrow> string \<Rightarrow> nat option" where
  "digits_val acc [] = Some acc"
| "digits_val acc (c # cs) =
     (case digit_val c of None \<Rightarrow> None | Some v \<Rightarrow> digits_val (10 * acc + v) cs)"

definition read_digits :: "nat \<Rightarrow> string \<Rightarrow> (nat \<times> string) option" where
  "read_digits n s =
     (if length s < n then None
      else (case digits_val 0 (take n s) of None \<Rightarrow> None | Some v \<Rightarrow> Some (v, drop n s)))"

definition expect :: "char \<Rightarrow> string \<Rightarrow> string option" where
  "expect c s = (case s of [] \<Rightarrow> None | x # r \<Rightarrow> if x = c then Some r else None)"

definition parse_fraction :: "string \<Rightarrow> nat option" where
  "parse_fraction s =
     (if length s = 6 then digits_val 0 s
      else if length s = 3 then map_option (\<lambda>v. v * 1000) (digits_val 0 s)
      else None)"

definition parse_seconds :: "string \<Rightarrow> (nat \<times> nat) option" where
  "parse_seconds s =
     (case read_digits 2 s of
        None \<Rightarrow> None
      | Some (sec, r) \<Rightarrow>
          if r = [] then Some (sec, 0)
          else (case expect CHR ''.'' r of
                  None \<Rightarrow> None
                | Some f \<Rightarrow> map_option (\<lambda>us. (sec, us)) (parse_fraction f)))"

definition parse_minutes :: "string \<Rightarrow> (nat \<times> nat \<times> nat) option" where
  "parse_minutes s =
     (case read_digits 2 s of
        None \<Rightarrow> None
      | Some (mi, r) \<Rightarrow>
          if r = [] then Some (mi, 0, 0)
          else (case expect CHR '':'' r of
                  None \<Rightarrow> None
                | Some r' \<Rightarrow> map_option (\<lambda>su. (mi, su)) (parse_seconds r')))"

definition parse_hms :: "string \<Rightarrow> (nat \<times> nat \<times> nat \<times> nat) option" where
  "parse_hms s =
     (case read_digits 2 s of
        None \<Rightarrow> None
      | Some (h, r) \<Rightarrow>
          if r = [] then Some (h, 0, 0, 0)
          else (case expect CHR '':'' r of
                  None \<Rightarrow> None
                | Some r' \<Rightarrow> map_option (\<lambda>ms. (h, ms)) (parse_minutes r')))"

definition parse_offset :: "string \<Rightarrow> int option option" where
  "parse_offset z =
     (case z of
        [] \<Rightarrow> Some None
      | sign # r \<Rightarrow>
          (case read_digits 2 r of
             None \<Rightarrow> None
           | Some (hh, r1) \<Rightarrow>
               (case expect CHR '':'' r1 of
                  None \<Rightarrow> None
                | Some r2 \<Rightarrow>
                    (case read_digits 2 r2 of
                       None \<Rightarrow> None
                     | Some (mm, r3) \<Rightarrow>
                         if r3 \<noteq> [] \<or> 24 \<le> hh \<or> 60 \<le> mm then None
                         else Some (Some ((if sign = CHR ''-'' then - 1 else 1) *
                                          int (hh * 60 + mm)))))))"

definition is_sign :: "char \<Rightarrow> bool" where
  "is_sign c = (c = CHR ''+'' \<or> c = CHR ''-'')"

definition parse_date :: "string \<Rightarrow> ((nat \<times> nat \<times> nat) \<times> string) option" where
  "parse_date s =
     (case read_digits 4 s of
        None \<Rightarrow> None
      | Some (y, r1) \<Rightarrow>
          (case expect CHR ''-'' r1 of
             None \<Rightarrow> None
           | Some r2 \<Rightarrow>
               (case read_digits 2 r2 of
                  None \<Rightarrow> None
                | Some (m, r3) \<Rightarrow>
                    (case expect CHR ''-'' r3 of
                       None \<Rightarrow> None
                     | Some r4 \<Rightarrow>
                         (case read_digits 2 r4 of
                            None \<Rightarrow> None
                          | Some (d, r5) \<Rightarrow> Some ((y, m, d), r5))))))"

definition checked :: "datetime \<Rightarrow> datetime option" where
  "checked d = (if valid_datetime d then Some d else None)"

definition fromisoformat :: "string \<Rightarrow> datetime option" where
  "fromisoformat s =
     (case parse_date s of
        None \<Rightarrow> None
      | Some ((y, m, d), r) \<Rightarrow>
          (case r of
             [] \<Rightarrow> checked \<lparr>year = y, month = m, day = d, hour = 0, minute = 0, second = 0,
                              microsecond = 0, utcoffset = None\<rparr>
           | sep # t \<Rightarrow>
               (case parse_hms (takeWhile (\<lambda>c. \<not> is_sign c) t) of
                  None \<Rightarrow> None
                | Some (h, mi, sec, us) \<Rightarrow>
                    (case parse_offset (dropWhile (\<lambda>c. \<not> is_sign c) t) of
                       None \<Rightarrow> None
                     | Some off \<Rightarrow>
                         checked \<lparr>year = y, month = m, day = d, hour = h, minute = mi,
                                  second = sec, microsecond = us, utcoffset = off\<rparr>))))"

subsection \<open>Ordering of timestamps\<close>

text \<open>
  Python orders two naive values, and two aware values, by the instant they denote;
  \<open>dt_micro\<close> is that instant in microseconds (a naive value is read at offset 0).
  Comparing a naive with an aware value raises \<open>TypeError\<close>.
\<close>

definition days_before_year :: "nat \<Rightarrow> int" where
  "days_before_year y =
     (let p = int y - 1 in p * 365 + p div 4 - p div 100 + p div 400)"

definition days_before_month :: "nat \<Rightarrow> nat \<Rightarrow> int" where
  "days_before_month y m = int (sum_list (map (days_in_month y) [1..<m]))"

definition ordinal :: "datetime \<Rightarrow> int" where
  "ordinal d = days_before_year (year d) + days_before_month (year d) (month d) + int (day d)"

definition dt_micro :: "datetime \<Rightarrow> int" where
  "dt_micro d =
     (((ordinal d * 24 + int (hour d)) * 60 + int (minute d)
        - (case utcoffset d of None \<Rightarrow> 0 | Some m \<Rightarrow> m)) * 60 + int (second d)) * 1000000
     + int (microsecond d)"

definition aware :: "datetime \<Rightarrow> bool" where
  "aware d = (utcoffset d \<noteq> None)"

section \<open>Articles and their JSON form\<close>

text \<open>The pydantic model \<open>Article\<close> of \<open>scrapers/base_scraper.py\<close>.\<close>

record article =
  title :: string
  url :: string
  body :: string
  summary :: "string option"
  category :: "string option"
  source :: string
  published_at :: "datetime option"
  scraped_at :: datetime
  author :: "string option"
  tags :: "string list"

text \<open>
  A JSON document as \<open>json.load\<close> returns it; an object is a dictionary in insertion
  order. \<open>pyval\<close> adds the one kind of Python value that is not JSON and that the
  storage code handles: a \<open>datetime\<close> object.
\<close>

datatype json =
    JNull
  | JBool bool
  | JNum int
  | JStr string
  | JArr "json list"
  | JObj "(string \<times> json) list"

datatype pyval = Plain json | Stamp datetime

datatype error =
    IOError
  | JSONDecodeError
  | AttributeError
  | TypeError
  | ValueError
  | ValidationError
  | OSError
  | OverflowError
  | BackendError

definition opt_str :: "string option \<Rightarrow> pyval" where
  "opt_str v = (case v of None \<Rightarrow> Plain JNull | Some s \<Rightarrow> Plain (JStr s))"

definition opt_stamp :: "datetime option \<Rightarrow> pyval" where
  "opt_stamp v = (case v of None \<Rightarrow> Plain JNull | Some d \<Rightarrow> Stamp d)"

text \<open>\<open>article.model_dump()\<close>: the fields in declaration order.\<close>

definition model_dump :: "article \<Rightarrow> (string \<times> pyval) list" where
  "model_dump a =
     [(''title'', Plain (JStr (title a))),
      (''url'', Plain (JStr (url a))),
      (''body'', Plain (JStr (body a))),
      (''summary'', opt_str (summary a)),
      (''category'', opt_str (category a)),
      (''source'', Plain (JStr (source a))),
      (''published_at'', opt_stamp (published_at a)),
      (''scraped_at'', Stamp (scraped_at a)),
      (''author'', opt_str (author a)),
      (''tags'', Plain (JArr (map JStr (tags a))))]"

text \<open>
  The loop of \<open>save_articles\<close> over \<open>article_dict.items()\<close>: a \<open>datetime\<close> value
  is replaced by its \<open>isoformat()\<close>, every other value is kept.
\<close>

definition stamp_to_text :: "pyval \<Rightarrow> json" where
  "stamp_to_text v = (case v of Stamp d \<Rightarrow> JStr (isoformat d) | Plain j \<Rightarrow> j)"

definition article_dict :: "article \<Rightarrow> json" where
  "article_dict a = JObj (map (\<lambda>(k, v). (k, stamp_to_text v)) (model_dump a))"

subsection \<open>Validation by the \<open>Article\<close> constructor\<close>

text \<open>
  \<open>Article(**article_data)\<close>: \<open>title\<close>, \<open>url\<close>, \<open>body\<close>, \<open>source\<close> and
  \<open>scraped_at\<close> are required; the optional fields default to \<open>None\<close> and \<open>tags\<close>
  to the empty list; keys that are no field are ignored. pydantic would also read a bare
  number as a Unix timestamp; \<open>save_articles\<close> never writes one and the model rejects it.
\<close>

definition req_str :: "(string \<times> pyval) list \<Rightarrow> string \<Rightarrow> error + string" where
  "req_str kv k =
     (case map_of kv k of Some (Plain (JStr s)) \<Rightarrow> Inr s | _ \<Rightarrow> Inl ValidationError)"

definition opt_field_str :: "(string \<times> pyval) list \<Rightarrow> string \<Rightarrow> error + string option" where
  "opt_field_str kv k =
     (case map_of kv k of
        None \<Rightarrow> Inr None
      | Some (Plain JNull) \<Rightarrow> Inr None
      | Some (Plain (JStr s)) \<Rightarrow> Inr (Some s)
      | _ \<Rightarrow> Inl ValidationError)"

definition req_stamp :: "(string \<times> pyval) list \<Rightarrow> string \<Rightarrow> error + datetime" where
  "req_stamp kv k =
     (case map_of kv k of Some (Stamp d) \<Rightarrow> Inr d | _ \<Rightarrow> Inl ValidationError)"

definition opt_field_stamp :: "(string \<times> pyval) list \<Rightarrow> string \<Rightarrow> error + datetime option" where
  "opt_field_stamp kv k =
     (case map_of kv k of
        None \<Rightarrow> Inr None
      | Some (Plain JNull) \<Rightarrow> Inr None
      | Some (Stamp d) \<Rightarrow> Inr (Some d)
      | _ \<Rightarrow> Inl ValidationError)"

fun str_items :: "json list \<Rightarrow> error + string list" where
  "str_items [] = Inr []"
| "str_items (JStr s # js) =
     (case str_items js of Inl e \<Rightarrow> Inl e | Inr ss \<Rightarrow> Inr (s # ss))"
| "str_items (_ # js) = Inl ValidationError"

definition field_tags :: "(string \<times> pyval) list \<Rightarrow> error + string list" where
  "field_tags kv =
     (case map_of kv ''tags'' of
        None \<Rightarrow> Inr []
      | Some (Plain (JArr js)) \<Rightarrow> str_items js
      | _ \<Rightarrow> Inl ValidationError)"

definition bindE :: "error + 'a \<Rightarrow> ('a \<Rightarrow> error + 'b) \<Rightarrow> error + 'b" where
  "bindE m f = (case m of Inl e \<Rightarrow> Inl e | Inr x \<Rightarrow> f x)"

definition Article :: "(string \<times> pyval) list \<Rightarrow> error + article" where
  "Article kv =
     bindE (req_str kv ''title'') (\<lambda>t.
     bindE (req_str kv ''url'') (\<lambda>u.
     bindE (req_str kv ''body'') (\<lambda>b.
     bindE (opt_field_str kv ''summary'') (\<lambda>sm.
     bindE (opt_field_str kv ''category'') (\<lambda>c.
     bindE (req_str kv ''source'') (\<lambda>src.
     bindE (opt_field_stamp kv ''published_at'') (\<lambda>p.
     bindE (req_stamp kv ''scraped_at'') (\<lambda>sc.
     bindE (opt_field_str kv ''author'') (\<lambda>au.
     bindE (field_tags kv) (\<lambda>tg.
       Inr \<lparr>title = t, url = u, body = b, summary = sm, category = c, source = src,
            published_at = p, scraped_at = sc, author = au, tags = tg\<rparr>))))))))))"

section \<open>Article storage\<close>

text \<open>
  The storage directory of \<open>scrapers/storage.py\<close>. A file is unreadable (\<open>open\<close>
  raises), holds text that is not JSON (\<open>json.load\<close> raises), or holds a document.
  \<open>mtime\<close> is \<open>datetime.fromtimestamp(path.stat().st_mtime)\<close> as a point of the
  timeline of \<open>dt_micro\<close>, and \<open>None\<close> when that expression raises (the entry is a
  dangling link, or vanished after the directory was listed). \<open>removable\<close> says
  whether \<open>unlink\<close> succeeds on the file. \<open>files\<close> is the directory in iteration
  order.
\<close>

datatype file_content = Unreadable | Garbage | Doc json

record batch_file =
  fname :: string
  mtime :: "int option"
  content :: file_content
  removable :: bool

record storage =
  files :: "batch_file list"
  writable :: bool

text \<open>Python truthiness of an optional string argument: \<open>None\<close> and \<open>""\<close> are false.\<close>

definition truthy :: "string option \<Rightarrow> bool" where
  "truthy v = (case v of None \<Rightarrow> False | Some s \<Rightarrow> s \<noteq> [])"

definition endswith :: "string \<Rightarrow> string \<Rightarrow> bool" where
  "endswith s suf = (length suf \<le> length s \<and> drop (length s - length suf) s = suf)"

text \<open>\<open>p in t\<close> on strings.\<close>

fun is_substring :: "string \<Rightarrow> string \<Rightarrow> bool" where
  "is_substring p [] = (p = [])"
| "is_substring p (c # cs) = (take (length p) (c # cs) = p \<or> is_substring p cs)"

subsection \<open>\<open>save_articles\<close>\<close>

text \<open>\<open>now.strftime("%Y%m%d_%H%M%S")\<close>\<close>

definition strftime_stamp :: "datetime \<Rightarrow> string" where
  "strftime_stamp d =
     zpad 4 (year d) @ zpad 2 (month d) @ zpad 2 (day d) @ ''_'' @
     zpad 2 (hour d) @ zpad 2 (minute d) @ zpad 2 (second d)"

definition batch_filename :: "string option \<Rightarrow> datetime \<Rightarrow> string" where
  "batch_filename source_name now =
     (if truthy source_name then the source_name @ ''_'' @ strftime_stamp now @ ''.json''
      else ''articles_'' @ strftime_stamp now @ ''.json'')"

definition envelope :: "datetime \<Rightarrow> string option \<Rightarrow> article list \<Rightarrow> json" where
  "envelope now source_name articles =
     JObj [(''scraped_at'', JStr (isoformat now)),
           (''source'', (case source_name of None \<Rightarrow> JNull | Some s \<Rightarrow> JStr s)),
           (''count'', JNum (int (length articles))),
           (''articles'', JArr (map article_dict articles))]"

text \<open>\<open>open(filepath, 'w')\<close>: the file of that name is replaced, or a new one is added.\<close>

fun write_file :: "batch_file \<Rightarrow> batch_file list \<Rightarrow> batch_file list" where
  "write_file f [] = [f]"
| "write_file f (g # gs) = (if fname g = fname f then f # gs else g # write_file f gs)"

definition save_articles ::
  "storage \<Rightarrow> datetime \<Rightarrow> article list \<Rightarrow> string option \<Rightarrow> error + (string \<times> storage)" where
  "save_articles st now articles source_name =
     (let filepath = batch_filename source_name now;
          f = \<lparr>fname = filepath, mtime = Some (dt_micro now),
               content = Doc (envelope now source_name articles), removable = True\<rparr>
      in if writable st then Inr (filepath, st\<lparr>files := write_file f (files st)\<rparr>)
         else Inl IOError)"

subsection \<open>\<open>load_articles\<close> and \<open>_load_file\<close>\<close>

text \<open>
  The inner loop of \<open>_load_file\<close> over \<open>article_data.items()\<close>: a string under a key
  ending in \<open>_at\<close> becomes the \<open>datetime\<close> it denotes, or \<open>None\<close> when
  \<open>datetime.fromisoformat\<close> (the parameter \<open>parse\<close>) raises.
\<close>

definition restore_stamp ::
  "(string \<Rightarrow> datetime option) \<Rightarrow> string \<times> json \<Rightarrow> string \<times> pyval" where
  "restore_stamp parse kv =
     (case kv of
        (k, JStr s) \<Rightarrow>
          if endswith k ''_at''
          then (case parse s of None \<Rightarrow> (k, Plain JNull) | Some d \<Rightarrow> (k, Stamp d))
          else (k, Plain (JStr s))
      | (k, v) \<Rightarrow> (k, Plain v))"

definition load_record :: "(string \<Rightarrow> datetime option) \<Rightarrow> json \<Rightarrow> error + article" where
  "load_record parse j =
     (case j of JObj kv \<Rightarrow> Article (map (restore_stamp parse) kv) | _ \<Rightarrow> Inl AttributeError)"

fun load_records :: "(string \<Rightarrow> datetime option) \<Rightarrow> json list \<Rightarrow> error + article list" where
  "load_records parse [] = Inr []"
| "load_records parse (j # js) =
     bindE (load_record parse j) (\<lambda>a. bindE (load_records parse js) (\<lambda>as. Inr (a # as)))"

text \<open>What \<open>for article_data in x\<close> iterates over, for each kind of JSON value.\<close>

definition iterate :: "json \<Rightarrow> error + json list" where
  "iterate x =
     (case x of
        JArr js \<Rightarrow> Inr js
      | JObj kv \<Rightarrow> Inr (map (\<lambda>p. JStr (fst p)) kv)
      | JStr s \<Rightarrow> Inr (map (\<lambda>c. JStr [c]) s)
      | _ \<Rightarrow> Inl TypeError)"

definition load_file_body ::
  "(string \<Rightarrow> datetime option) \<Rightarrow> file_content \<Rightarrow> error + article list" where
  "load_file_body parse c =
     (case c of
        Unreadable \<Rightarrow> Inl IOError
      | Garbage \<Rightarrow> Inl JSONDecodeError
      | Doc (JObj kv) \<Rightarrow>
          (case map_of kv ''articles'' of
             None \<Rightarrow> Inr []
           | Some x \<Rightarrow> bindE (iterate x) (load_records parse))
      | Doc _ \<Rightarrow> Inl AttributeError)"

text \<open>\<open>_load_file\<close>: the \<open>except Exception\<close> turns every failure into the empty list.\<close>

definition load_file :: "(string \<Rightarrow> datetime option) \<Rightarrow> file_content \<Rightarrow> article list" where
  "load_file parse c = (case load_file_body parse c of Inl e \<Rightarrow> [] | Inr as \<Rightarrow> as)"

definition read_path :: "storage \<Rightarrow> string \<Rightarrow> file_content" where
  "read_path st p =
     (case find (\<lambda>f. fname f = p) (files st) of None \<Rightarrow> Unreadable | Some f \<Rightarrow> content f)"

text \<open>
  \<open>datetime.now() - timedelta(days=max_age_days)\<close>: \<open>timedelta\<close> raises
  \<open>OverflowError\<close> beyond 999999999 days, and so does the subtraction when the result
  leaves the years 1 to 9999. The clock reading \<open>now\<close> is offset-naive.
\<close>

definition microseconds_per_day :: int where
  "microseconds_per_day = 86400000000"

definition min_stamp :: datetime where
  "min_stamp = \<lparr>year = 1, month = 1, day = 1, hour = 0, minute = 0, second = 0,
                 microsecond = 0, utcoffset = None\<rparr>"

definition max_stamp :: datetime where
  "max_stamp = \<lparr>year = 9999, month = 12, day = 31, hour = 23, minute = 59, second = 59,
                 microsecond = 999999, utcoffset = None\<rparr>"

definition cutoff_date :: "datetime \<Rightarrow> int \<Rightarrow> error + int" where
  "cutoff_date now max_age_days =
     (if \<bar>max_age_days\<bar> > 999999999 then Inl OverflowError
      else (let c = dt_micro now - max_age_days * microseconds_per_day
            in if dt_micro min_stamp \<le> c \<and> c \<le> dt_micro max_stamp then Inr c
               else Inl OverflowError))"

text \<open>\<open>self.storage_path.glob("*.json")\<close>\<close>

definition glob_json :: "storage \<Rightarrow> batch_file list" where
  "glob_json st = filter (\<lambda>f. endswith (fname f) ''.json'') (files st)"

text \<open>
  The loop of \<open>load_articles\<close> over the batch files. Reading the modification time is
  outside every \<open>try\<close>: when it raises, the whole call raises and the articles
  collected so far are lost.
\<close>

fun scan_files ::
  "(string \<Rightarrow> datetime option) \<Rightarrow> int \<Rightarrow> string option \<Rightarrow> batch_file list \<Rightarrow>
   error + article list" where
  "scan_files parse cutoff src [] = Inr []"
| "scan_files parse cutoff src (f # fs) =
     (case mtime f of
        None \<Rightarrow> Inl OSError
      | Some t \<Rightarrow>
          if t < cutoff then scan_files parse cutoff src fs
          else if truthy src \<and> \<not> is_substring (the src) (fname f)
          then scan_files parse cutoff src fs
          else bindE (scan_files parse cutoff src fs)
                 (\<lambda>rest. Inr (load_file parse (content f) @ rest)))"

definition load_articles ::
  "(string \<Rightarrow> datetime option) \<Rightarrow> storage \<Rightarrow> datetime \<Rightarrow> string option \<Rightarrow> string option \<Rightarrow>
   int \<Rightarrow> error + article list" where
  "load_articles parse st now filepath src max_age_days =
     (if truthy filepath then Inr (load_file parse (read_path st (the filepath)))
      else bindE (cutoff_date now max_age_days)
             (\<lambda>cutoff. scan_files parse cutoff src (glob_json st)))"

subsection \<open>\<open>get_latest_articles\<close>\<close>

text \<open>
  \<open>articles.sort(key=lambda x: x.scraped_at, reverse=True)\<close>: a stable sort, which
  raises \<open>TypeError\<close> when it has to compare a naive with an aware timestamp.
\<close>

definition sort_scraped_desc :: "article list \<Rightarrow> error + article list" where
  "sort_scraped_desc xs =
     (if list_ex (\<lambda>a. aware (scraped_at a)) xs \<and> list_ex (\<lambda>a. \<not> aware (scraped_at a)) xs
      then Inl TypeError
      else Inr (sort_key (\<lambda>a. - dt_micro (scraped_at a)) xs))"



subsection \<open>\<open>cleanup_old_articles\<close>\<close>

text \<open>
  The loop over the batch files: an old file is unlinked; when \<open>unlink\<close> raises, the
  error is logged and the file stays. Reading the modification time is outside the
  \<open>try\<close>: when it raises, the loop stops there and the call raises. The result is
  the directory left behind, \<open>removed_count\<close>, and the exception that ended the loop.
\<close>

fun cleanup_scan :: "int \<Rightarrow> batch_file list \<Rightarrow> batch_file list \<times> nat \<times> error option" where
  "cleanup_scan cutoff [] = ([], 0, None)"
| "cleanup_scan cutoff (f # fs) =
     (if \<not> endswith (fname f) ''.json''
      then (let (kept, n, e) = cleanup_scan cutoff fs in (f # kept, n, e))
      else (case mtime f of
              None \<Rightarrow> (f # fs, 0, Some OSError)
            | Some t \<Rightarrow>
                (let (kept, n, e) = cleanup_scan cutoff fs
                 in if t < cutoff \<and> removable f then (kept, Suc n, e) else (f # kept, n, e))))"

definition cleanup_old_articles ::
  "storage \<Rightarrow> datetime \<Rightarrow> int \<Rightarrow> storage \<times> error option" where
  "cleanup_old_articles st now max_age_days =
     (case cutoff_date now max_age_days of
        Inl e \<Rightarrow> (st, Some e)
      | Inr cutoff \<Rightarrow>
          (let (kept, n, e) = cleanup_scan cutoff (files st) in (st\<lparr>files := kept\<rparr>, e)))"

definition removed_count :: "storage \<Rightarrow> datetime \<Rightarrow> int \<Rightarrow> nat" where
  "removed_count st now max_age_days =
     (case cutoff_date now max_age_days of
        Inl e \<Rightarrow> 0
      | Inr cutoff \<Rightarrow> fst (snd (cleanup_scan cutoff (files st))))"

section \<open>The aggregator\<close>

text \<open>
  \<open>NewsAggregator.get_articles_by_category\<close> of \<open>scrapers/main.py\<close>. The
  dictionary \<open>categorized\<close> is a list of buckets in insertion order.
  \<open>article.category or 'uncategorized'\<close> is the category when it is a non-empty
  string, and \<open>'uncategorized'\<close> for \<open>None\<close> and for \<open>""\<close>.
\<close>

definition bucket_key :: "article \<Rightarrow> string" where
  "bucket_key a = (if truthy (category a) then the (category a) else ''uncategorized'')"

text \<open>
  \<open>if category not in categorized: categorized[category] = []\<close> followed by
  \<open>categorized[category].append(article)\<close>
\<close>

fun add_to_bucket ::
  "string \<Rightarrow> article \<Rightarrow> (string \<times> article list) list \<Rightarrow> (string \<times> article list) list" where
  "add_to_bucket k a [] = [(k, [a])]"
| "add_to_bucket k a ((k', xs) # rest) =
     (if k' = k then (k', xs @ [a]) # rest else (k', xs) # add_to_bucket k a rest)"

definition group_articles :: "article list \<Rightarrow> (string \<times> article list) list" where
  "group_articles as = fold (\<lambda>a d. add_to_bucket (bucket_key a) a d) as []"

text \<open>The second loop sorts the buckets in turn; a sort that raises ends the call.\<close>

fun sort_buckets ::
  "(string \<times> article list) list \<Rightarrow> error + (string \<times> article list) list" where
  "sort_buckets [] = Inr []"
| "sort_buckets ((k, xs) # rest) =
     bindE (sort_scraped_desc xs) (\<lambda>ys.
     bindE (sort_buckets rest) (\<lambda>sorted_rest. Inr ((k, ys) # sorted_rest)))"

definition get_articles_by_category ::
  "(string \<Rightarrow> datetime option) \<Rightarrow> storage \<Rightarrow> datetime \<Rightarrow>
   error + (string \<times> article list) list" where
  "get_articles_by_category parse st now =
     bindE (load_articles parse st now None None 7)
       (\<lambda>articles. sort_buckets (group_articles articles))"

section \<open>Notions used to state the properties\<close>

text \<open>The timestamps of an article are values Python can build.\<close>

definition valid_article :: "article \<Rightarrow> bool" where
  "valid_article a =
     (valid_datetime (scraped_at a) \<and>
      (case published_at a of None \<Rightarrow> True | Some d \<Rightarrow> valid_datetime d))"

text \<open>A batch file is well-formed when the body of \<open>_load_file\<close> raises nothing on it.\<close>

definition well_formed :: "(string \<Rightarrow> datetime option) \<Rightarrow> file_content \<Rightarrow> bool" where
  "well_formed parse c = (case load_file_body parse c of Inl e \<Rightarrow> False | Inr as \<Rightarrow> True)"

text \<open>
  The \<open>scraped_at\<close> values of a list can be compared with each other: all
  offset-naive or all offset-aware.
\<close>

definition same_kind :: "article list \<Rightarrow> bool" where
  "same_kind xs =
     (list_all (\<lambda>a. aware (scraped_at a)) xs \<or> list_all (\<lambda>a. \<not> aware (scraped_at a)) xs)"

text \<open>Non-increasing in \<open>scraped_at\<close>.\<close>

definition newest_first :: "article list \<Rightarrow> bool" where
  "newest_first xs =
     sorted_wrt (\<lambda>a b. dt_micro (scraped_at b) \<le> dt_micro (scraped_at a)) xs"

text \<open>The modification time of every batch file can be read.\<close>

definition statable :: "storage \<Rightarrow> bool" where
  "statable st = list_all (\<lambda>f. mtime f \<noteq> None) (glob_json st)"

text \<open>A file is stale when it was last modified strictly before the cutoff.\<close>

definition stale :: "int \<Rightarrow> batch_file \<Rightarrow> bool" where
  "stale cutoff f = (case mtime f of None \<Rightarrow> False | Some t \<Rightarrow> t < cutoff)"

text \<open>The age window and source filter of \<open>load_articles\<close>.\<close>

definition in_window :: "int \<Rightarrow> string option \<Rightarrow> batch_file \<Rightarrow> bool" where
  "in_window cutoff src f =
     (\<not> stale cutoff f \<and> \<not> (truthy src \<and> \<not> is_substring (the src) (fname f)))"

text \<open>What \<open>cleanup_old_articles\<close> removes: the stale batch files that can be unlinked.\<close>

definition doomed :: "int \<Rightarrow> batch_file \<Rightarrow> bool" where
  "doomed cutoff f = (endswith (fname f) ''.json'' \<and> stale cutoff f \<and> removable f)"

subsection \<open>Example data\<close>

definition example_now :: datetime where
  "example_now = \<lparr>year = 2024, month = 3, day = 10, hour = 12, minute = 0, second = 0,
                   microsecond = 0, utcoffset = None\<rparr>"

text \<open>One second after \<open>example_now\<close>.\<close>

definition example_later :: datetime where
  "example_later = \<lparr>year = 2024, month = 3, day = 10, hour = 12, minute = 0, second = 1,
                     microsecond = 0, utcoffset = None\<rparr>"

definition example_tech :: article where
  "example_tech =
     \<lparr>title = ''Chip news'', url = ''https://example.org/a'', body = ''A new chip.'',
      summary = Some ''chip'', category = Some ''tech'', source = ''feed'',
      published_at = Some \<lparr>year = 2024, month = 3, day = 9, hour = 8, minute = 30, second = 0,
                            microsecond = 0, utcoffset = Some 60\<rparr>,
      scraped_at = \<lparr>year = 2024, month = 3, day = 10, hour = 11, minute = 59, second = 58,
                     microsecond = 250000, utcoffset = None\<rparr>,
      author = None, tags = [''hardware'', ''chips'']\<rparr>"

definition example_plain :: article where
  "example_plain =
     \<lparr>title = ''Match report'', url = ''https://example.org/b'', body = ''They won.'',
      summary = None, category = None, source = ''feed'',
      published_at = None,
      scraped_at = \<lparr>year = 2024, month = 3, day = 10, hour = 11, minute = 59, second = 59,
                     microsecond = 0, utcoffset = None\<rparr>,
      author = Some ''A. Writer'', tags = []\<rparr>"

text \<open>
  \<open>example_tech\<close> with an offset-aware \<open>scraped_at\<close>, and with the empty string as
  its category.
\<close>

definition example_aware :: article where
  "example_aware = example_tech\<lparr>scraped_at :=
     \<lparr>year = 2024, month = 3, day = 10, hour = 11, minute = 59, second = 58,
      microsecond = 250000, utcoffset = Some 0\<rparr>\<rparr>"

definition example_blank :: article where
  "example_blank = example_tech\<lparr>category := Some []\<rparr>"

definition example_batch :: "string \<Rightarrow> article list \<Rightarrow> batch_file" where
  "example_batch name articles =
     \<lparr>fname = name, mtime = Some (dt_micro example_now),
      content = Doc (envelope example_now None articles), removable = True\<rparr>"

text \<open>
  The fields of two records as a batch file may hold them: those of \<open>example_plain\<close>,
  once with an unreadable \<open>published_at\<close> and once with an unreadable \<open>scraped_at\<close>.
\<close>

definition bad_published_fields :: "(string \<times> json) list" where
  "bad_published_fields =
     [(''title'', JStr ''Match report''), (''url'', JStr ''https://example.org/b''),
      (''body'', JStr ''They won.''), (''summary'', JNull), (''category'', JNull),
      (''source'', JStr ''feed''), (''published_at'', JStr ''yesterday''),
      (''scraped_at'', JStr ''2024-03-10T11:59:59''),
      (''author'', JStr ''A. Writer''), (''tags'', JArr [])]"

definition bad_scraped_fields :: "(string \<times> json) list" where
  "bad_scraped_fields =
     [(''title'', JStr ''Match report''), (''url'', JStr ''https://example.org/b''),
      (''body'', JStr ''They won.''), (''summary'', JNull), (''category'', JNull),
      (''source'', JStr ''feed''), (''published_at'', JNull),
      (''scraped_at'', JStr ''yesterday''),
      (''author'', JStr ''A. Writer''), (''tags'', JArr [])]"

definition example_bad_published :: json where
  "example_bad_published = JObj bad_published_fields"

definition example_bad_scraped :: json where
  "example_bad_scraped = JObj bad_scraped_fields"

text \<open>The record with its \<open>published_at\<close> set to null.\<close>

definition null_published :: "(string \<times> json) list \<Rightarrow> (string \<times> json) list" where
  "null_published r = map (\<lambda>p. if fst p = ''published_at'' then (fst p, JNull) else p) r"

text \<open>
  A batch file holding a good record followed by one with an unreadable \<open>scraped_at\<close>,
  and one holding a good record followed by one with an unreadable \<open>published_at\<close>.
\<close>

definition example_half :: file_content where
  "example_half =
     Doc (JObj [(''articles'', JArr [article_dict example_plain, example_bad_scraped])])"

definition example_lenient :: file_content where
  "example_lenient =
     Doc (JObj [(''articles'', JArr [article_dict example_tech, example_bad_published])])"

text \<open>
  A directory with two good batch files around a file that is not JSON, a file that
  cannot be opened and a file with a bad record; and a directory with the two good
  batch files around an entry whose modification time cannot be read.
\<close>

definition example_directory :: storage where
  "example_directory =
     \<lparr>files = [example_batch ''feed_a.json'' [example_tech],
               \<lparr>fname = ''broken.json'', mtime = Some (dt_micro example_now),
                content = Garbage, removable = True\<rparr>,
               \<lparr>fname = ''locked.json'', mtime = Some (dt_micro example_now),
                content = Unreadable, removable = True\<rparr>,
               \<lparr>fname = ''half.json'', mtime = Some (dt_micro example_now),
                content = example_half, removable = True\<rparr>,
               example_batch ''feed_b.json'' [example_plain]],
      writable = True\<rparr>"

definition gone_batch :: batch_file where
  "gone_batch = \<lparr>fname = ''gone.json'', mtime = None, content = Unreadable,
                  removable = True\<rparr>"

definition example_dangling :: storage where
  "example_dangling =
     \<lparr>files = [example_batch ''feed_a.json'' [example_tech], gone_batch,
               example_batch ''feed_b.json'' [example_plain]],
      writable = True\<rparr>"

text \<open>
  Files for the cleanup, seen from \<open>example_now\<close> with a limit of seven days: a batch
  file of 1 January 2024 that can be removed and one that cannot, a batch file modified
  exactly seven days ago, and an old file that is no batch file.
\<close>

definition old_mtime :: int where
  "old_mtime = 63839750400000000"

definition week_ago :: int where
  "week_ago = 63845150400000000"

definition old_batch :: batch_file where
  "old_batch = \<lparr>fname = ''feed_20240101_000000.json'', mtime = Some old_mtime,
                 content = Garbage, removable = True\<rparr>"

definition pinned_batch :: batch_file where
  "pinned_batch = \<lparr>fname = ''pinned_20240101_000000.json'', mtime = Some old_mtime,
                    content = Garbage, removable = False\<rparr>"

definition boundary_batch :: batch_file where
  "boundary_batch = \<lparr>fname = ''feed_20240303_120000.json'', mtime = Some week_ago,
                      content = Garbage, removable = True\<rparr>"

definition notes_file :: batch_file where
  "notes_file = \<lparr>fname = ''notes.txt'', mtime = Some old_mtime,
                  content = Garbage, removable = True\<rparr>"

definition example_attic :: storage where
  "example_attic =
     \<lparr>files = [old_batch, pinned_batch, boundary_batch,
               example_batch ''feed_b.json'' [example_plain], notes_file],
      writable = True\<rparr>"

definition example_attic_dangling :: storage where
  "example_attic_dangling = \<lparr>files = [gone_batch, old_batch], writable = True\<rparr>"

text \<open>
  A directory whose one batch file holds two articles of one category, one with an
  offset-naive and one with an offset-aware \<open>scraped_at\<close>, and one whose batch file holds an article with the empty string as category
  and one without category.
\<close>

definition example_mixed :: storage where
  "example_mixed =
     \<lparr>files = [example_batch ''mixed.json'' [example_tech, example_aware]],
      writable = True\<rparr>"

definition example_blanks :: storage where
  "example_blanks =
     \<lparr>files = [example_batch ''blank.json'' [example_blank, example_plain]],
      writable = True\<rparr>"

section \<open>The RSS scraper\<close>




















subsection \<open>Notions for the scraper\<close>



subsection \<open>An example feed\<close>





section \<open>The processor\<close>

text \<open>
  \<open>ArticleProcessor.process_article\<close> of \<open>processors/processor.py\<close>, over a heap of
  objects so that the argument and the result are distinct objects that one can
  compare. An \<open>Article\<close> object holds its strings and timestamps, which are immutable
  values, and the address of its \<open>tags\<close> list; an address is the position of the
  object in the heap, and is always that of an existing object. \<open>model_copy()\<close>
  makes a shallow copy: a new object with the same field values, sharing the list.
\<close>

record article_object =
  o_title :: string
  o_url :: string
  o_body :: string
  o_summary :: "string option"
  o_category :: "string option"
  o_source :: string
  o_published_at :: "datetime option"
  o_scraped_at :: datetime
  o_author :: "string option"
  o_tags :: nat

record heap =
  objs :: "article_object list"
  tag_lists :: "string list list"

text \<open>
  The two backends as the processor holds them: absent (\<open>self.summarizer\<close> is
  \<open>None\<close>), or a function from the text (and the length limit) to the string
  returned or the exception raised.
\<close>

record processor =
  summarizer :: "(string \<Rightarrow> int \<Rightarrow> error + string) option"
  categorizer :: "(string \<Rightarrow> error + string) option"

definition model_copy :: "heap \<Rightarrow> nat \<Rightarrow> heap \<times> nat" where
  "model_copy h r = (h\<lparr>objs := objs h @ [objs h ! r]\<rparr>, length (objs h))"

definition set_summary :: "heap \<Rightarrow> nat \<Rightarrow> string \<Rightarrow> heap" where
  "set_summary h r s = h\<lparr>objs := (objs h)[r := (objs h ! r)\<lparr>o_summary := Some s\<rparr>]\<rparr>"

definition set_category :: "heap \<Rightarrow> nat \<Rightarrow> string \<Rightarrow> heap" where
  "set_category h r c = h\<lparr>objs := (objs h)[r := (objs h ! r)\<lparr>o_category := Some c\<rparr>]\<rparr>"

text \<open>
  The two steps inside the \<open>try\<close>, for the argument at \<open>a\<close> and the copy at
  \<open>r\<close>: each reads the argument, calls its backend and assigns to the copy; an
  exception of the backend leaves the heap as it was.
\<close>

definition summarization ::
  "processor \<Rightarrow> heap \<Rightarrow> nat \<Rightarrow> nat \<Rightarrow> bool \<Rightarrow> int \<Rightarrow> error + heap" where
  "summarization p h a r summarize max_summary_length =
     (case summarizer p of
        Some f \<Rightarrow>
          if summarize
          then bindE (f (o_body (objs h ! a)) max_summary_length) (\<lambda>s. Inr (set_summary h r s))
          else Inr h
      | None \<Rightarrow> Inr h)"

definition categorization :: "processor \<Rightarrow> heap \<Rightarrow> nat \<Rightarrow> nat \<Rightarrow> bool \<Rightarrow> error + heap" where
  "categorization p h a r categorize =
     (case categorizer p of
        Some f \<Rightarrow>
          if categorize
          then bindE (f (o_title (objs h ! a) @ ''. '' @ take 1000 (o_body (objs h ! a))))
                 (\<lambda>c. Inr (set_category h r c))
          else Inr h
      | None \<Rightarrow> Inr h)"

text \<open>
  \<open>process_article\<close>: the heap after the call and the address returned. The
  \<open>except Exception\<close> logs and falls through to the \<open>return\<close>, so what was assigned
  before the exception stays.
\<close>

definition process_article ::
  "processor \<Rightarrow> heap \<Rightarrow> nat \<Rightarrow> bool \<Rightarrow> bool \<Rightarrow> int \<Rightarrow> heap \<times> nat" where
  "process_article p h a summarize categorize max_summary_length =
     (let (h0, r) = model_copy h a
      in case summarization p h0 a r summarize max_summary_length of
           Inl e \<Rightarrow> (h0, r)
         | Inr h1 \<Rightarrow>
             (case categorization p h1 a r categorize of
                Inl e \<Rightarrow> (h1, r)
              | Inr h2 \<Rightarrow> (h2, r)))"

text \<open>Two objects agree on every field except \<open>summary\<close> and \<open>category\<close>.\<close>

definition same_scraped_fields :: "article_object \<Rightarrow> article_object \<Rightarrow> bool" where
  "same_scraped_fields a b =
     (o_title a = o_title b \<and> o_url a = o_url b \<and> o_body a = o_body b \<and>
      o_source a = o_source b \<and> o_published_at a = o_published_at b \<and>
      o_scraped_at a = o_scraped_at b \<and> o_author a = o_author b \<and> o_tags a = o_tags b)"

text \<open>
  What a step inside the \<open>try\<close> may do to a heap whose objects up to \<open>n\<close> are the
  old ones: nothing, or change \<open>summary\<close> or \<open>category\<close> of the object at \<open>n\<close>.
\<close>

definition touches_only :: "nat \<Rightarrow> heap \<Rightarrow> heap \<Rightarrow> bool" where
  "touches_only n h h' =
     (length (objs h') = length (objs h) \<and> take n (objs h') = take n (objs h) \<and>
      tag_lists h' = tag_lists h \<and> same_scraped_fields (objs h ! n) (objs h' ! n))"

subsection \<open>An example heap\<close>

definition example_object :: article_object where
  "example_object =
     \<lparr>o_title = ''Chip news'', o_url = ''https://example.org/a'', o_body = ''A new chip.'',
      o_summary = None, o_category = Some ''misc'', o_source = ''feed'',
      o_published_at = None, o_scraped_at = example_now, o_author = None, o_tags = 0\<rparr>"

definition example_heap :: heap where
  "example_heap = \<lparr>objs = [example_object], tag_lists = [[''hardware'']]\<rparr>"

text \<open>A processor whose summarizer returns the first words and whose categorizer raises.\<close>

definition example_processor :: processor where
  "example_processor =
     \<lparr>summarizer = Some (\<lambda>t n. Inr (take 5 t)), categorizer = Some (\<lambda>t. Inl BackendError)\<rparr>"

section \<open>The categorizer\<close>

text \<open>
  \<open>_fallback_categorize\<close> and \<open>ArticleCategorizer.categorize_article\<close> of
  \<open>processors/categorizer.py\<close>. Scores are exact rationals: \<open>0.1\<close> is one tenth.
  Python computes with binary floating point; its rounding is not part of this model.
\<close>

text \<open>\<open>str.lower()\<close> on the code points below 256.\<close>

definition to_lower :: "char \<Rightarrow> char" where
  "to_lower c =
     (let n = (of_char c :: nat)
      in if (65 \<le> n \<and> n \<le> 90) \<or> (192 \<le> n \<and> n \<le> 222 \<and> n \<noteq> 215) then char_of (n + 32)
         else c)"

definition lower :: "string \<Rightarrow> string" where
  "lower s = map to_lower s"

definition category_keywords :: "(string \<times> string list) list" where
  "category_keywords =
     [(''tech'', [''technology'', ''ai'', ''software'', ''computer'', ''digital'', ''startup'',
                  ''app'']),
      (''finance'', [''money'', ''bank'', ''stock'', ''investment'', ''market'', ''economy'',
                     ''business'']),
      (''health'', [''health'', ''medical'', ''doctor'', ''disease'', ''treatment'',
                    ''medicine'']),
      (''politics'', [''government'', ''election'', ''policy'', ''president'', ''congress'',
                      ''political'']),
      (''sports'', [''sport'', ''game'', ''team'', ''player'', ''championship'', ''league'']),
      (''science'', [''research'', ''study'', ''scientific'', ''discovery'', ''experiment'']),
      (''entertainment'', [''movie'', ''music'', ''celebrity'', ''entertainment'', ''film'',
                           ''show''])]"

text \<open>\<open>category_keywords.get(category.lower(), [category.lower()])\<close>\<close>

definition keywords_for :: "string \<Rightarrow> string list" where
  "keywords_for c =
     (case map_of category_keywords (lower c) of Some ks \<Rightarrow> ks | None \<Rightarrow> [lower c])"

text \<open>The inner loop, from the base score: \<open>if keyword in text_lower: score += 0.2\<close>\<close>

definition add_matches :: "string \<Rightarrow> string list \<Rightarrow> rat \<Rightarrow> rat" where
  "add_matches text_lower ks base =
     fold (\<lambda>k score. if is_substring k text_lower then score + 2 / 10 else score) ks base"

definition capped_score :: "string \<Rightarrow> string \<Rightarrow> rat" where
  "capped_score text_lower c = min (add_matches text_lower (keywords_for c) (1 / 10)) 1"

text \<open>\<open>scores[category] = v\<close> on a dictionary in insertion order.\<close>

fun dict_set :: "string \<Rightarrow> rat \<Rightarrow> (string \<times> rat) list \<Rightarrow> (string \<times> rat) list" where
  "dict_set k v [] = [(k, v)]"
| "dict_set k v ((k', v') # d) =
     (if k' = k then (k', v) # d else (k', v') # dict_set k v d)"

definition score_all :: "string \<Rightarrow> string list \<Rightarrow> (string \<times> rat) list" where
  "score_all text_lower categories =
     fold (\<lambda>c scores. dict_set c (capped_score text_lower c) scores) categories []"

definition fallback_categorize :: "string \<Rightarrow> string list \<Rightarrow> (string \<times> rat) list" where
  "fallback_categorize text_in categories =
     (let scores = score_all (lower text_in) categories;
          total = sum_list (map snd scores)
      in if total > 0 then map (\<lambda>p. (fst p, snd p / total)) scores else scores)"

text \<open>
  \<open>max(scores, key=scores.get)\<close>: the first key, in dictionary order, whose value no
  other exceeds; \<open>ValueError\<close> on the empty dictionary.
\<close>

fun max_from :: "string \<times> rat \<Rightarrow> (string \<times> rat) list \<Rightarrow> string" where
  "max_from best [] = fst best"
| "max_from best (p # ps) = (if snd p > snd best then max_from p ps else max_from best ps)"

definition max_key :: "(string \<times> rat) list \<Rightarrow> error + string" where
  "max_key scores = (case scores of [] \<Rightarrow> Inl ValueError | p # ps \<Rightarrow> Inr (max_from p ps))"

text \<open>
  \<open>categorize_article\<close> of a categorizer whose backend answers with
  \<open>_fallback_categorize\<close> (no client, or no model loaded). \<open>own_categories\<close> is
  \<open>self.categories\<close>; the argument \<open>[]\<close> stands for \<open>None\<close> as well, both being
  replaced by \<open>self.categories\<close>.
\<close>

definition categorize_article :: "string list \<Rightarrow> string \<Rightarrow> string list \<Rightarrow> error + string" where
  "categorize_article own_categories article_text categories =
     max_key (fallback_categorize article_text
                (if categories = [] then own_categories else categories))"

subsection \<open>Notions for the categorizer\<close>

text \<open>The number of keywords of a category that occur in the text.\<close>

definition matches :: "string \<Rightarrow> string \<Rightarrow> nat" where
  "matches text_lower c = length (filter (\<lambda>k. is_substring k text_lower) (keywords_for c))"

text \<open>The score the specification gives: 0.1, plus 0.2 per matching keyword, at most 1.\<close>

definition spec_score :: "string \<Rightarrow> string \<Rightarrow> rat" where
  "spec_score text_lower c = min (1 / 10 + 2 / 10 * of_nat (matches text_lower c)) 1"

text \<open>The candidates in the order of their first listing, each once.\<close>

definition first_listed :: "string list \<Rightarrow> string list" where
  "first_listed cs = fold (\<lambda>c seen. if c \<in> set seen then seen else seen @ [c]) cs []"

text \<open>
  Position \<open>i\<close> holds a greatest score of the list, and every earlier position a
  strictly smaller one.
\<close>

definition first_max :: "rat list \<Rightarrow> nat \<Rightarrow> bool" where
  "first_max vs i =
     (i < length vs \<and> list_all (\<lambda>v. v \<le> vs ! i) vs \<and> list_all (\<lambda>v. v < vs ! i) (take i vs))"

section \<open>Properties of timestamps\<close>

lemma digit_val_digit_char: "n < 10 \<Longrightarrow> digit_val (digit_char n) = Some n"
  by (simp add: digit_val_def digit_char_def)

lemma length_zpad [simp]: "length (zpad w v) = w"
  by (induction w arbitrary: v) auto

lemma digits_val_append:
  "digits_val acc (xs @ ys) =
   (case digits_val acc xs of None \<Rightarrow> None | Some a \<Rightarrow> digits_val a ys)"
  by (induction xs arbitrary: acc) (auto split: option.splits)

lemma digits_val_zpad: "v < 10 ^ w \<Longrightarrow> digits_val acc (zpad w v) = Some (acc * 10 ^ w + v)"
proof (induction w arbitrary: v acc)
  case 0
  then show ?case by simp
next
  case (Suc w)
  have "v div 10 < 10 ^ w"
    using Suc.prems by (simp add: less_mult_imp_div_less mult.commute)
  then have "digits_val acc (zpad w (v div 10)) = Some (acc * 10 ^ w + v div 10)"
    by (rule Suc.IH)
  then show ?case
    by (simp add: digits_val_append digit_val_digit_char algebra_simps)
qed

lemma read_digits_zpad: "v < 10 ^ w \<Longrightarrow> read_digits w (zpad w v @ r) = Some (v, r)"
  by (simp add: read_digits_def digits_val_zpad)

lemma read_digits_zpad_end: "v < 10 ^ w \<Longrightarrow> read_digits w (zpad w v) = Some (v, [])"
  using read_digits_zpad [of v w "[]"] by simp

lemma digit_char_not_sign: "n < 10 \<Longrightarrow> \<not> is_sign (digit_char n)"
proof -
  assume "n < 10"
  then have "digit_val (digit_char n) = Some n" by (rule digit_val_digit_char)
  moreover have "digit_val CHR ''+'' = None" "digit_val CHR ''-'' = None"
    by (simp_all add: digit_val_def)
  ultimately show ?thesis by (auto simp: is_sign_def)
qed

lemma zpad_no_sign: "c \<in> set (zpad w v) \<Longrightarrow> \<not> is_sign c"
  by (induction w arbitrary: v) (auto simp: digit_char_not_sign)

lemma format_time_no_sign: "c \<in> set (format_time d) \<Longrightarrow> \<not> is_sign c"
  by (auto simp: format_time_def is_sign_def dest: zpad_no_sign split: if_splits)

lemma takeWhile_prefix:
  "(\<And>c. c \<in> set xs \<Longrightarrow> P c) \<Longrightarrow> ys = [] \<or> \<not> P (hd ys) \<Longrightarrow> takeWhile P (xs @ ys) = xs"
  by (cases ys) (auto simp: takeWhile_tail)

lemma dropWhile_prefix:
  "(\<And>c. c \<in> set xs \<Longrightarrow> P c) \<Longrightarrow> ys = [] \<or> \<not> P (hd ys) \<Longrightarrow> dropWhile P (xs @ ys) = ys"
  by (cases ys) (auto simp: dropWhile_append3)

lemma format_offset_head:
  "format_offset off = [] \<or> \<not> \<not> is_sign (hd (format_offset off))"
  by (cases off) (auto simp: format_offset_def is_sign_def)

lemma takeWhile_time:
  "takeWhile (\<lambda>c. \<not> is_sign c) (format_time d @ format_offset off) = format_time d"
  using format_offset_head [of off]
  by (intro takeWhile_prefix) (auto dest: format_time_no_sign)

lemma dropWhile_time:
  "dropWhile (\<lambda>c. \<not> is_sign c) (format_time d @ format_offset off) = format_offset off"
  using format_offset_head [of off]
  by (intro dropWhile_prefix) (auto dest: format_time_no_sign)

lemma parse_hms_format_time:
  "hour d < 24 \<Longrightarrow> minute d < 60 \<Longrightarrow> second d < 60 \<Longrightarrow> microsecond d < 1000000 \<Longrightarrow>
   parse_hms (format_time d) = Some (hour d, minute d, second d, microsecond d)"
  by (simp add: format_time_def parse_hms_def parse_minutes_def parse_seconds_def
       parse_fraction_def read_digits_zpad read_digits_zpad_end expect_def digits_val_zpad)

lemma parse_offset_sign:
  assumes "hh < 24" "mm < 60"
  shows "parse_offset (sign # zpad 2 hh @ CHR '':'' # zpad 2 mm) =
         Some (Some ((if sign = CHR ''-'' then - 1 else 1) * int (hh * 60 + mm)))"
proof -
  have "hh < 10 ^ 2" "mm < 10 ^ 2" using assms by simp_all
  then show ?thesis using assms
    by (simp add: parse_offset_def read_digits_zpad read_digits_zpad_end expect_def)
qed

lemma parse_offset_format_offset:
  assumes "valid_offset off"
  shows "parse_offset (format_offset off) = Some off"
proof (cases off)
  case None
  then show ?thesis by (simp add: format_offset_def parse_offset_def)
next
  case (Some m)
  define hh mm where "hh = nat \<bar>m\<bar> div 60" and "mm = nat \<bar>m\<bar> mod 60"
  have b: "hh < 24" "mm < 60"
    using assms Some by (auto simp: valid_offset_def hh_def mm_def)
  have v: "int (hh * 60 + mm) = \<bar>m\<bar>" by (simp add: hh_def mm_def)
  have "format_offset off =
        (if m < 0 then CHR ''-'' else CHR ''+'') # zpad 2 hh @ '':'' @ zpad 2 mm"
    by (simp add: format_offset_def Some hh_def mm_def)
  then show ?thesis
    using v Some by (cases "m < 0") (simp_all add: parse_offset_sign [OF b])
qed

lemma parse_date_format_date:
  "year d \<le> 9999 \<Longrightarrow> month d \<le> 12 \<Longrightarrow> day d \<le> 31 \<Longrightarrow>
   parse_date (format_date d @ r) = Some ((year d, month d, day d), r)"
  by (simp add: format_date_def parse_date_def read_digits_zpad expect_def)

lemma days_in_month_le: "days_in_month y m \<le> 31"
  by (simp add: days_in_month_def)

text \<open>\<open>fromisoformat\<close> inverts \<open>isoformat\<close> on every value Python can build.\<close>

lemma fromisoformat_isoformat:
  assumes "valid_datetime d"
  shows "fromisoformat (isoformat d) = Some d"
proof -
  from assms have r: "year d \<le> 9999" "month d \<le> 12" "day d \<le> 31" "hour d < 24"
    "minute d < 60" "second d < 60" "microsecond d < 1000000" "valid_offset (utcoffset d)"
    using days_in_month_le [of "year d" "month d"] by (auto simp: valid_datetime_def)
  have "fromisoformat (isoformat d) =
        checked \<lparr>year = year d, month = month d, day = day d, hour = hour d,
                 minute = minute d, second = second d, microsecond = microsecond d,
                 utcoffset = utcoffset d\<rparr>"
    unfolding fromisoformat_def isoformat_def
    by (simp add: parse_date_format_date r takeWhile_time dropWhile_time
        parse_hms_format_time parse_offset_format_offset)
  also have "\<dots> = Some d"
    using assms by (cases d) (simp add: checked_def)
  finally show ?thesis .
qed

subsection \<open>Evaluating the formatter on concrete values\<close>

lemma zpad_numeral:
  "zpad (numeral n) v = zpad (pred_numeral n) (v div 10) @ [digit_char (v mod 10)]"
proof -
  have "zpad (Suc (pred_numeral n)) v =
        zpad (pred_numeral n) (v div 10) @ [digit_char (v mod 10)]"
    by simp
  then show ?thesis by (simp only: numeral_eq_Suc [symmetric])
qed

lemma digit_chars:
  "digit_char (Suc 0) = CHR ''1''" "digit_char 0 = CHR ''0''" "digit_char 1 = CHR ''1''"
  "digit_char 2 = CHR ''2''" "digit_char 3 = CHR ''3''" "digit_char 4 = CHR ''4''"
  "digit_char 5 = CHR ''5''" "digit_char 6 = CHR ''6''" "digit_char 7 = CHR ''7''"
  "digit_char 8 = CHR ''8''" "digit_char 9 = CHR ''9''"
  by (simp_all add: digit_char_def char_of_def bit_0)

lemma example_now_valid: "valid_datetime example_now"
  by (simp add: example_now_def valid_datetime_def valid_offset_def days_in_month_def)

lemma example_tech_valid: "valid_article example_tech"
  by (simp add: valid_article_def example_tech_def valid_datetime_def valid_offset_def
      days_in_month_def)

lemma example_plain_valid: "valid_article example_plain"
  by (simp add: valid_article_def example_plain_def valid_datetime_def valid_offset_def
      days_in_month_def)

lemma example_filename:
  "batch_filename (Some ''feed'') example_now = ''feed_20240310_120000.json''"
  by (simp add: batch_filename_def truthy_def strftime_stamp_def example_now_def zpad_numeral
      digit_chars)

section \<open>Saving and loading a batch\<close>

lemma str_items_map_JStr: "str_items (map JStr ss) = Inr ss"
  by (induction ss) auto

lemma restore_opt_str: "restore_stamp fromisoformat (k, stamp_to_text (opt_str v)) =
   (if endswith k ''_at'' \<and> v \<noteq> None then (case fromisoformat (the v) of None \<Rightarrow> (k, Plain JNull) | Some d \<Rightarrow> (k, Stamp d)) else (k, opt_str v))"
  by (cases v) (auto simp: restore_stamp_def stamp_to_text_def opt_str_def)

lemma restore_opt_stamp:
  "(case v of None \<Rightarrow> True | Some d \<Rightarrow> valid_datetime d) \<Longrightarrow>
   restore_stamp fromisoformat (''published_at'', stamp_to_text (opt_stamp v)) = (''published_at'', opt_stamp v)"
  by (cases v) (auto simp: restore_stamp_def stamp_to_text_def opt_stamp_def endswith_def fromisoformat_isoformat)

lemma restore_scraped:
  "valid_datetime d \<Longrightarrow>
   restore_stamp fromisoformat (''scraped_at'', stamp_to_text (Stamp d)) = (''scraped_at'', Stamp d)"
  by (auto simp: restore_stamp_def stamp_to_text_def endswith_def fromisoformat_isoformat)

lemma restore_plain_str:
  "\<not> endswith k ''_at'' \<Longrightarrow> restore_stamp fromisoformat (k, stamp_to_text (Plain (JStr s))) = (k, Plain (JStr s))"
  by (auto simp: restore_stamp_def stamp_to_text_def)

lemma restore_tags:
  "restore_stamp fromisoformat (k, stamp_to_text (Plain (JArr js))) = (k, Plain (JArr js))"
  by (auto simp: restore_stamp_def stamp_to_text_def)

lemma opt_field_str_opt_str: "map_of kv k = Some (opt_str v) \<Longrightarrow> opt_field_str kv k = Inr v"
  by (cases v) (auto simp: opt_field_str_def opt_str_def)

lemma opt_field_stamp_opt_stamp: "map_of kv k = Some (opt_stamp v) \<Longrightarrow> opt_field_stamp kv k = Inr v"
  by (cases v) (auto simp: opt_field_stamp_def opt_stamp_def)

lemma load_record_article_dict:
  assumes "valid_article a"
  shows "load_record fromisoformat (article_dict a) = Inr a"
proof -
  have v: "valid_datetime (scraped_at a)" "(case published_at a of None \<Rightarrow> True | Some d \<Rightarrow> valid_datetime d)"
    using assms by (simp_all add: valid_article_def)
  have e: "\<not> endswith ''title'' ''_at''" "\<not> endswith ''url'' ''_at''" "\<not> endswith ''body'' ''_at''"
    "\<not> endswith ''summary'' ''_at''" "\<not> endswith ''category'' ''_at''" "\<not> endswith ''source'' ''_at''"
    "\<not> endswith ''author'' ''_at''"
    by (simp_all add: endswith_def)
  have m: "map (restore_stamp fromisoformat) (map (\<lambda>(k, v). (k, stamp_to_text v)) (model_dump a)) = model_dump a"
    by (simp add: model_dump_def restore_opt_str restore_opt_stamp restore_scraped restore_plain_str restore_tags e v)
  have "Article (model_dump a) = Inr a"
    by (cases a) (simp add: Article_def model_dump_def bindE_def req_str_def req_stamp_def field_tags_def
        opt_field_str_opt_str opt_field_stamp_opt_stamp str_items_map_JStr)
  then show ?thesis using m by (simp add: load_record_def article_dict_def del: map_map)
qed

lemma load_records_article_dicts:
  "(\<And>a. a \<in> set as \<Longrightarrow> valid_article a) \<Longrightarrow> load_records fromisoformat (map article_dict as) = Inr as"
  by (induction as) (auto simp: bindE_def load_record_article_dict)

lemma load_file_envelope:
  "list_all valid_article as \<Longrightarrow> load_file fromisoformat (Doc (envelope now src as)) = as"
  by (simp add: load_file_def load_file_body_def envelope_def iterate_def bindE_def
      load_records_article_dicts list_all_iff)

lemma find_write_file: "find (\<lambda>g. fname g = fname f) (write_file f fs) = Some f"
  by (induction fs) auto

lemma batch_filename_nonempty: "batch_filename s now \<noteq> []"
  by (simp add: batch_filename_def)

text \<open>
  C1. A batch that \<open>save_articles\<close> has written, read back through
  \<open>load_articles\<close> with the path that \<open>save_articles\<close> returned, is the list that
  was saved: same length, same order, every field equal, the timestamps having gone
  through \<open>isoformat\<close> and \<open>fromisoformat\<close>.
\<close>

theorem save_load_roundtrip:
  assumes "list_all valid_article articles"
    and "save_articles st now articles source_name = Inr (path, st')"
  shows "load_articles fromisoformat st' now' (Some path) src d = Inr articles"
proof -
  let ?f = "\<lparr>fname = batch_filename source_name now, mtime = Some (dt_micro now),
               content = Doc (envelope now source_name articles), removable = True\<rparr>"
  from assms(2) have p: "path = batch_filename source_name now"
    and s: "files st' = write_file ?f (files st)"
    by (auto simp: save_articles_def Let_def split: if_splits)
  have "read_path st' path = Doc (envelope now source_name articles)"
    using find_write_file [of ?f "files st"] by (simp add: read_path_def p s)
  moreover have "load_file fromisoformat (Doc (envelope now source_name articles)) = articles"
    using assms(1) by (rule load_file_envelope)
  ultimately show ?thesis
    by (simp add: load_articles_def truthy_def p batch_filename_nonempty)
qed

theorem save_load_roundtrip_witness:
  "list_all valid_article [example_tech, example_plain]
   \<and> save_articles \<lparr>files = [], writable = True\<rparr> example_now
         [example_tech, example_plain] (Some ''feed'')
       = Inr (''feed_20240310_120000.json'',
              \<lparr>files = [\<lparr>fname = ''feed_20240310_120000.json'', mtime = Some (dt_micro example_now),
                 content = Doc (envelope example_now (Some ''feed'')
                                 [example_tech, example_plain]),
                 removable = True\<rparr>], writable = True\<rparr>)
   \<and> load_articles fromisoformat
        \<lparr>files = [\<lparr>fname = ''feed_20240310_120000.json'', mtime = Some (dt_micro example_now),
                 content = Doc (envelope example_now (Some ''feed'')
                                 [example_tech, example_plain]),
                 removable = True\<rparr>], writable = True\<rparr>
        example_now (Some ''feed_20240310_120000.json'') None 7
       = Inr [example_tech, example_plain]"
proof -
  have v: "list_all valid_article [example_tech, example_plain]"
    by (simp add: example_tech_valid example_plain_valid)
  have s: "save_articles \<lparr>files = [], writable = True\<rparr> example_now
         [example_tech, example_plain] (Some ''feed'')
       = Inr (''feed_20240310_120000.json'',
              \<lparr>files = [\<lparr>fname = ''feed_20240310_120000.json'', mtime = Some (dt_micro example_now),
                 content = Doc (envelope example_now (Some ''feed'')
                                 [example_tech, example_plain]),
                 removable = True\<rparr>], writable = True\<rparr>)"
    by (simp add: save_articles_def example_filename Let_def)
  from save_load_roundtrip [OF v s] v s show ?thesis by simp
qed

section \<open>Instants of the example data\<close>

lemma dt_micro_example_now: "dt_micro example_now = 63845755200000000"
  by (simp add: example_now_def dt_micro_def ordinal_def days_before_year_def
      days_before_month_def days_in_month_def is_leap_def upt_rec)

lemma dt_micro_example_later: "dt_micro example_later = 63845755201000000"
  by (simp add: example_later_def dt_micro_def ordinal_def days_before_year_def
      days_before_month_def days_in_month_def is_leap_def upt_rec)

lemma dt_micro_min_stamp: "dt_micro min_stamp = 86400000000"
  by (simp add: min_stamp_def dt_micro_def ordinal_def days_before_year_def
      days_before_month_def days_in_month_def is_leap_def upt_rec)

lemma dt_micro_max_stamp: "dt_micro max_stamp = 315537983999999999"
  by (simp add: max_stamp_def dt_micro_def ordinal_def days_before_year_def
      days_before_month_def days_in_month_def is_leap_def upt_rec)

lemma cutoff_example: "cutoff_date example_now 7 = Inr week_ago"
  by (simp add: cutoff_date_def Let_def dt_micro_example_now dt_micro_min_stamp
      dt_micro_max_stamp microseconds_per_day_def week_ago_def)

lemma cutoff_later: "cutoff_date example_later 7 = Inr (week_ago + 1000000)"
  by (simp add: cutoff_date_def Let_def dt_micro_example_later dt_micro_min_stamp
      dt_micro_max_stamp microseconds_per_day_def week_ago_def)

lemma cutoff_overflow: "cutoff_date example_now 1000000 = Inl OverflowError"
  by (simp add: cutoff_date_def Let_def dt_micro_example_now dt_micro_min_stamp
      dt_micro_max_stamp microseconds_per_day_def)

section \<open>Loading the directory\<close>

lemma scan_files_statable:
  "list_all (\<lambda>f. mtime f \<noteq> None) fs \<Longrightarrow>
   scan_files parse cutoff src fs =
   Inr (concat (map (\<lambda>f. load_file parse (content f)) (filter (in_window cutoff src) fs)))"
  by (induction fs) (auto simp: in_window_def stale_def bindE_def)

lemma scan_files_unstatable:
  "\<not> list_all (\<lambda>f. mtime f \<noteq> None) fs \<Longrightarrow> scan_files parse cutoff src fs = Inl OSError"
  by (induction fs) (auto simp: bindE_def split: option.splits)

lemma load_file_ill_formed: "\<not> well_formed parse c \<Longrightarrow> load_file parse c = []"
  by (auto simp: well_formed_def load_file_def split: sum.splits)

lemma concat_map_filter_nonempty:
  "(\<And>x. \<not> W x \<Longrightarrow> g x = []) \<Longrightarrow>
   concat (map g (filter P xs)) = concat (map g (filter (\<lambda>x. P x \<and> W x) xs))"
  by (induction xs) auto

text \<open>
  What \<open>load_articles\<close> returns without an explicit path: when the cutoff can be
  computed and every modification time can be read, the concatenation, in directory
  order, of the article lists of the well-formed batch files in the age window; when a
  modification time cannot be read, the exception of \<open>stat\<close>.
\<close>

lemma load_articles_directory:
  "load_articles parse st now None src d =
     (case cutoff_date now d of
        Inl e \<Rightarrow> Inl e
      | Inr c \<Rightarrow>
          if statable st
          then Inr (concat (map (\<lambda>f. load_file parse (content f))
                 (filter (\<lambda>f. in_window c src f \<and> well_formed parse (content f)) (glob_json st))))
          else Inl OSError)"
proof (cases "cutoff_date now d")
  case (Inl e)
  then show ?thesis by (simp add: load_articles_def truthy_def bindE_def)
next
  case (Inr c)
  show ?thesis
  proof (cases "statable st")
    case True
    have "concat (map (\<lambda>f. load_file parse (content f)) (filter (in_window c src) (glob_json st)))
        = concat (map (\<lambda>f. load_file parse (content f))
            (filter (\<lambda>f. in_window c src f \<and> well_formed parse (content f)) (glob_json st)))"
      by (rule concat_map_filter_nonempty) (simp add: load_file_ill_formed)
    with True Inr show ?thesis
      by (simp add: load_articles_def truthy_def bindE_def statable_def scan_files_statable)
  next
    case False
    with Inr show ?thesis
      by (simp add: load_articles_def truthy_def bindE_def statable_def scan_files_unstatable)
  qed
qed

subsection \<open>Concrete records\<close>

lemma iso_example: "isoformat \<lparr>year = 2024, month = 3, day = 10, hour = 11, minute = 59, second = 59,
                     microsecond = 0, utcoffset = None\<rparr> = ''2024-03-10T11:59:59''"
  by (simp add: isoformat_def format_date_def format_time_def format_offset_def zpad_numeral digit_chars)

lemma from_example: "fromisoformat ''2024-03-10T11:59:59'' = Some \<lparr>year = 2024, month = 3, day = 10, hour = 11, minute = 59, second = 59,
                     microsecond = 0, utcoffset = None\<rparr>"
  unfolding iso_example [symmetric]
  by (rule fromisoformat_isoformat) (simp add: valid_datetime_def valid_offset_def days_in_month_def)

lemma from_yesterday: "fromisoformat ''yesterday'' = None"
  by (simp add: fromisoformat_def parse_date_def read_digits_def digit_val_def)

lemma endswith_at: "endswith ''published_at'' ''_at''" "endswith ''scraped_at'' ''_at''"
  "\<not> endswith ''title'' ''_at''" "\<not> endswith ''url'' ''_at''" "\<not> endswith ''body'' ''_at''"
  "\<not> endswith ''summary'' ''_at''" "\<not> endswith ''category'' ''_at''" "\<not> endswith ''source'' ''_at''"
  "\<not> endswith ''author'' ''_at''" "\<not> endswith ''tags'' ''_at''"
  by (simp_all add: endswith_def)

lemma load_bad_published: "load_record fromisoformat example_bad_published = Inr example_plain"
  by (simp add: load_record_def example_bad_published_def bad_published_fields_def restore_stamp_def
      endswith_at from_example from_yesterday
      Article_def bindE_def req_str_def opt_field_str_def opt_field_stamp_def req_stamp_def
      field_tags_def example_plain_def)

lemma load_bad_scraped: "load_record fromisoformat example_bad_scraped = Inl ValidationError"
  by (simp add: load_record_def example_bad_scraped_def bad_scraped_fields_def restore_stamp_def
      endswith_at from_example from_yesterday
      Article_def bindE_def req_str_def opt_field_str_def opt_field_stamp_def req_stamp_def
      field_tags_def)

lemma load_file_body_envelope:
  "list_all valid_article as \<Longrightarrow>
   load_file_body fromisoformat (Doc (envelope now src as)) = Inr as"
  by (simp add: load_file_body_def envelope_def iterate_def bindE_def
      load_records_article_dicts list_all_iff)

lemma load_file_half: "load_file fromisoformat example_half = []"
  by (simp add: load_file_def example_half_def load_file_body_def iterate_def bindE_def
      load_record_article_dict example_plain_valid load_bad_scraped)

lemma load_file_bad_content:
  "load_file parse Garbage = []" "load_file parse Unreadable = []"
  by (simp_all add: load_file_def load_file_body_def)

lemma glob_example: "glob_json example_directory = files example_directory"
  by (simp add: glob_json_def example_directory_def example_batch_def endswith_def)

lemma glob_dangling: "glob_json example_dangling = files example_dangling"
  by (simp add: glob_json_def example_dangling_def example_batch_def gone_batch_def
      endswith_def)

lemma week_ago_before_now: "\<not> dt_micro example_now < week_ago"
  by (simp add: dt_micro_example_now week_ago_def)

lemma load_example_directory:
  "load_articles fromisoformat example_directory example_now None None 7
   = Inr [example_tech, example_plain]"
proof -
  have "load_articles fromisoformat example_directory example_now None None 7
      = scan_files fromisoformat week_ago None (files example_directory)"
    by (simp add: load_articles_def truthy_def bindE_def cutoff_example glob_example)
  also have "\<dots> = Inr [example_tech, example_plain]"
    by (simp add: example_directory_def example_batch_def week_ago_before_now truthy_def
        bindE_def load_file_envelope load_file_half load_file_bad_content example_tech_valid
        example_plain_valid)
  finally show ?thesis .
qed

lemma load_example_dangling:
  "load_articles fromisoformat example_dangling example_now None None 7 = Inl OSError"
proof -
  have "load_articles fromisoformat example_dangling example_now None None 7
      = scan_files fromisoformat week_ago None (files example_dangling)"
    by (simp add: load_articles_def truthy_def bindE_def cutoff_example glob_dangling)
  also have "\<dots> = Inl OSError"
    by (simp add: example_dangling_def example_batch_def gone_batch_def week_ago_before_now
        truthy_def bindE_def)
  finally show ?thesis .
qed

text \<open>
  C8 (where the code departs from it). A batch file that cannot be opened, is not JSON
  or holds a bad record contributes nothing, and the good files around it are loaded:
  \<open>example_directory\<close>. But \<open>load_articles\<close> reads the modification time of
  each batch file outside the \<open>try\<close> of \<open>_load_file\<close>: with one entry whose
  modification time cannot be read between two good files, \<open>example_dangling\<close>, the
  call raises and returns no article at all.
\<close>

theorem load_articles_aborts_on_unreadable_mtime:
  "load_articles fromisoformat example_directory example_now None None 7
     = Inr [example_tech, example_plain]
   \<and> mtime gone_batch = None
   \<and> gone_batch \<in> set (glob_json example_dangling)
   \<and> load_articles fromisoformat example_dangling example_now None None 7 = Inl OSError"
proof -
  have "gone_batch \<in> set (glob_json example_dangling)"
    unfolding glob_dangling by (simp add: example_dangling_def)
  then show ?thesis
    by (simp add: load_example_directory load_example_dangling gone_batch_def)
qed

section \<open>Unreadable timestamps in a batch file\<close>

lemma fst_restore_stamp: "fst (restore_stamp parse p) = fst p"
  by (cases p) (auto simp: restore_stamp_def split: json.splits option.splits)

lemma map_of_restore:
  "map_of (map (restore_stamp parse) r) k =
   map_option (\<lambda>v. snd (restore_stamp parse (k, v))) (map_of r k)"
proof (induction r)
  case Nil
  then show ?case by simp
next
  case (Cons p r)
  obtain k' v where p: "p = (k', v)" by (cases p)
  obtain w where w: "restore_stamp parse (k', v) = (k', w)"
    using fst_restore_stamp [of parse "(k', v)"] by (cases "restore_stamp parse (k', v)") simp
  show ?case using Cons by (simp add: p w)
qed

lemma restore_unparseable:
  "endswith k ''_at'' \<Longrightarrow> parse s = None \<Longrightarrow>
   restore_stamp parse (k, JStr s) = (k, Plain JNull)"
  by (simp add: restore_stamp_def)

lemma restore_null: "restore_stamp parse (k, JNull) = (k, Plain JNull)"
  by (simp add: restore_stamp_def)

lemma bindE_fail:
  "m = Inl ValidationError \<or> (\<exists>x. m = Inr x) \<Longrightarrow> (\<And>x. f x = Inl ValidationError) \<Longrightarrow>
   bindE m f = Inl ValidationError"
  by (auto simp: bindE_def)

lemma req_str_cases: "req_str kv k = Inl ValidationError \<or> (\<exists>x. req_str kv k = Inr x)"
  by (simp add: req_str_def split: option.splits pyval.splits json.splits)

lemma opt_field_str_cases:
  "opt_field_str kv k = Inl ValidationError \<or> (\<exists>x. opt_field_str kv k = Inr x)"
  by (simp add: opt_field_str_def split: option.splits pyval.splits json.splits)

lemma opt_field_stamp_cases:
  "opt_field_stamp kv k = Inl ValidationError \<or> (\<exists>x. opt_field_stamp kv k = Inr x)"
  by (simp add: opt_field_stamp_def split: option.splits pyval.splits json.splits)

lemma Article_needs_scraped_at:
  assumes "map_of kv ''scraped_at'' = Some (Plain JNull)"
  shows "Article kv = Inl ValidationError"
proof -
  have s: "req_stamp kv ''scraped_at'' = Inl ValidationError"
    by (simp add: req_stamp_def assms)
  show ?thesis
    unfolding Article_def
    apply (rule bindE_fail [OF req_str_cases])
    apply (rule bindE_fail [OF req_str_cases])
    apply (rule bindE_fail [OF req_str_cases])
    apply (rule bindE_fail [OF opt_field_str_cases])
    apply (rule bindE_fail [OF opt_field_str_cases])
    apply (rule bindE_fail [OF req_str_cases])
    apply (rule bindE_fail [OF opt_field_stamp_cases])
    apply (simp add: s bindE_def)
    done
qed

lemma load_record_bad_scraped:
  assumes "map_of r ''scraped_at'' = Some (JStr s)" "parse s = None"
  shows "load_record parse (JObj r) = Inl ValidationError"
proof -
  have "map_of (map (restore_stamp parse) r) ''scraped_at'' = Some (Plain JNull)"
    using assms by (simp add: map_of_restore restore_unparseable endswith_at)
  then show ?thesis by (simp add: load_record_def Article_needs_scraped_at)
qed

lemma load_records_fail:
  "j \<in> set js \<Longrightarrow> load_record parse j = Inl e \<Longrightarrow> \<exists>e'. load_records parse js = Inl e'"
  by (induction js) (auto simp: bindE_def split: sum.splits)

lemma load_file_body_bad_scraped:
  assumes "map_of kv ''articles'' = Some (JArr js)" "JObj r \<in> set js"
    "map_of r ''scraped_at'' = Some (JStr s)" "parse s = None"
  shows "\<exists>e. load_file_body parse (Doc (JObj kv)) = Inl e"
proof -
  have "load_record parse (JObj r) = Inl ValidationError"
    using assms(3,4) by (rule load_record_bad_scraped)
  with assms(2) obtain e' where "load_records parse js = Inl e'"
    using load_records_fail [of "JObj r" js parse ValidationError] by blast
  then show ?thesis
    by (simp add: load_file_body_def assms(1) iterate_def bindE_def)
qed

lemma Article_cong: "map_of kv = map_of kv' \<Longrightarrow> Article kv = Article kv'"
  by (simp add: Article_def req_str_def opt_field_str_def req_stamp_def opt_field_stamp_def
      field_tags_def)

lemma map_of_null_published:
  "map_of (null_published r) k =
   (if k = ''published_at'' then map_option (\<lambda>v. JNull) (map_of r k) else map_of r k)"
  by (induction r) (auto simp: null_published_def)

lemma load_record_bad_published:
  assumes "map_of r ''published_at'' = Some (JStr s)" "parse s = None"
  shows "load_record parse (JObj r) = load_record parse (JObj (null_published r))"
proof -
  have "map_of (map (restore_stamp parse) r) k
      = map_of (map (restore_stamp parse) (null_published r)) k" for k
  proof (cases "k = ''published_at''")
    case True
    then show ?thesis using assms
      by (simp add: map_of_restore map_of_null_published restore_unparseable endswith_at
          restore_null)
  next
    case False
    then show ?thesis by (simp add: map_of_restore map_of_null_published)
  qed
  then have "map_of (map (restore_stamp parse) r)
           = map_of (map (restore_stamp parse) (null_published r))"
    by (rule ext)
  from Article_cong [OF this] show ?thesis by (simp add: load_record_def)
qed

text \<open>
  C10 (as the code has it). A string under a key ending in \<open>_at\<close> that
  \<open>datetime.fromisoformat\<close> rejects is replaced by null, whatever strings the
  reader accepts. When the key is the required \<open>scraped_at\<close>, the \<open>Article\<close>
  constructor then fails with a validation error and \<open>_load_file\<close> returns the empty
  list for the whole file, whatever other records the file holds. When the key is the
  optional \<open>published_at\<close>, the record is read exactly as if the file had held null
  there.
\<close>

theorem unparseable_stamp_becomes_null:
  assumes "parse s = None"
  shows "(endswith k ''_at'' \<longrightarrow> restore_stamp parse (k, JStr s) = (k, Plain JNull))
    \<and> (map_of r ''scraped_at'' = Some (JStr s) \<longrightarrow>
         load_record parse (JObj r) = Inl ValidationError \<and>
         (map_of kv ''articles'' = Some (JArr js) \<and> JObj r \<in> set js \<longrightarrow>
            \<not> well_formed parse (Doc (JObj kv)) \<and> load_file parse (Doc (JObj kv)) = []))
    \<and> (map_of r ''published_at'' = Some (JStr s) \<longrightarrow>
         load_record parse (JObj r) = load_record parse (JObj (null_published r)))"
proof (intro conjI impI)
  show "restore_stamp parse (k, JStr s) = (k, Plain JNull)" if "endswith k ''_at''"
    using that assms by (simp add: restore_unparseable)
  show "load_record parse (JObj r) = Inl ValidationError"
    if "map_of r ''scraped_at'' = Some (JStr s)"
    using that assms by (simp add: load_record_bad_scraped)
  show "load_record parse (JObj r) = load_record parse (JObj (null_published r))"
    if "map_of r ''published_at'' = Some (JStr s)"
    using load_record_bad_published [of r s parse] that assms by simp
next
  assume a: "map_of r ''scraped_at'' = Some (JStr s)"
    "map_of kv ''articles'' = Some (JArr js) \<and> JObj r \<in> set js"
  then obtain e where e: "load_file_body parse (Doc (JObj kv)) = Inl e"
    using load_file_body_bad_scraped [of kv js r s parse] assms by blast
  show "\<not> well_formed parse (Doc (JObj kv))" by (simp add: well_formed_def e)
  show "load_file parse (Doc (JObj kv)) = []" by (simp add: load_file_def e)
qed

theorem unparseable_stamp_becomes_null_witness:
  "fromisoformat ''yesterday'' = None
   \<and> endswith ''scraped_at'' ''_at''
   \<and> restore_stamp fromisoformat (''scraped_at'', JStr ''yesterday'')
       = (''scraped_at'', Plain JNull)
   \<and> map_of bad_scraped_fields ''scraped_at'' = Some (JStr ''yesterday'')
   \<and> load_record fromisoformat example_bad_scraped = Inl ValidationError
   \<and> load_record fromisoformat (article_dict example_plain) = Inr example_plain
   \<and> \<not> well_formed fromisoformat example_half
   \<and> load_file fromisoformat example_half = []"
proof -
  have m: "map_of bad_scraped_fields ''scraped_at'' = Some (JStr ''yesterday'')"
    by (simp add: bad_scraped_fields_def)
  from unparseable_stamp_becomes_null [of fromisoformat "''yesterday''" "''scraped_at''"
      bad_scraped_fields
      "[(''articles'', JArr [article_dict example_plain, JObj bad_scraped_fields])]"
      "[article_dict example_plain, JObj bad_scraped_fields]"]
  show ?thesis
    by (simp add: m from_yesterday endswith_at example_half_def example_bad_scraped_def
        load_record_article_dict example_plain_valid)
qed

text \<open>
  C10 as stated fails for the other \<open>_at\<close> field: a batch file whose second record has
  an unreadable \<open>published_at\<close> is well-formed, and both of its records are loaded.
\<close>

theorem unparseable_published_at_keeps_file:
  "map_of bad_published_fields ''published_at'' = Some (JStr ''yesterday'')
   \<and> fromisoformat ''yesterday'' = None
   \<and> well_formed fromisoformat example_lenient
   \<and> load_file fromisoformat example_lenient = [example_tech, example_plain]"
proof -
  have m: "map_of bad_published_fields ''published_at'' = Some (JStr ''yesterday'')"
    by (simp add: bad_published_fields_def)
  have b: "load_file_body fromisoformat example_lenient = Inr [example_tech, example_plain]"
    by (simp add: example_lenient_def load_file_body_def iterate_def bindE_def
        load_record_article_dict example_tech_valid load_bad_published)
  show ?thesis by (simp add: m b from_yesterday well_formed_def load_file_def)
qed

section \<open>Cleanup of old batch files\<close>

lemma cleanup_scan_statable:
  "list_all (\<lambda>f. mtime f \<noteq> None) (filter (\<lambda>f. endswith (fname f) ''.json'') fs) \<Longrightarrow>
   cleanup_scan c fs = (filter (\<lambda>f. \<not> doomed c f) fs, length (filter (doomed c) fs), None)"
  by (induction fs) (auto simp: doomed_def stale_def)

lemma statable_filter:
  "statable st \<Longrightarrow> statable (st\<lparr>files := filter P (files st)\<rparr>)"
  by (auto simp: statable_def glob_json_def list_all_iff)

lemma cleanup_statable:
  assumes "cutoff_date now d = Inr c" and "statable st"
  shows "cleanup_old_articles st now d = (st\<lparr>files := filter (\<lambda>f. \<not> doomed c f) (files st)\<rparr>, None)"
    and "removed_count st now d = length (filter (doomed c) (files st))"
  using assms
  by (simp_all add: cleanup_old_articles_def removed_count_def statable_def glob_json_def
      cleanup_scan_statable)

lemma filter_not_doomed_twice:
  "filter (\<lambda>f. \<not> doomed c f) (filter (\<lambda>f. \<not> doomed c f) fs) = filter (\<lambda>f. \<not> doomed c f) fs"
  "filter (doomed c) (filter (\<lambda>f. \<not> doomed c f) fs) = []"
  by (induction fs) auto

text \<open>
  C9 (as the code has it). When the cutoff \<open>now - D\<close> days can be computed and the
  modification time of every batch file can be read, \<open>cleanup_old_articles\<close> raises
  nothing and removes exactly the \<open>*.json\<close> files that were modified strictly before
  the cutoff and whose \<open>unlink\<close> succeeds; all other files stay, unchanged and in
  order; run again at the same clock reading it changes nothing and counts no removal.
\<close>

theorem cleanup_removes_old_removable:
  assumes "cutoff_date now d = Inr c" and "statable st"
  shows "cleanup_old_articles st now d
           = (st\<lparr>files := filter (\<lambda>f. \<not> doomed c f) (files st)\<rparr>, None)
    \<and> removed_count st now d = length (filter (doomed c) (files st))
    \<and> cleanup_old_articles (fst (cleanup_old_articles st now d)) now d
           = (fst (cleanup_old_articles st now d), None)
    \<and> removed_count (fst (cleanup_old_articles st now d)) now d = 0"
proof -
  let ?st = "st\<lparr>files := filter (\<lambda>f. \<not> doomed c f) (files st)\<rparr>"
  have s: "statable ?st" using assms(2) by (rule statable_filter)
  have 1: "cleanup_old_articles st now d = (?st, None)"
    and 2: "removed_count st now d = length (filter (doomed c) (files st))"
    using assms by (rule cleanup_statable)+
  have 3: "cleanup_old_articles ?st now d = (?st, None)"
    using cleanup_statable(1) [OF assms(1) s] by (simp add: filter_not_doomed_twice)
  have 4: "removed_count ?st now d = 0"
    using cleanup_statable(2) [OF assms(1) s] by (simp add: filter_not_doomed_twice)
  show ?thesis by (simp add: 1 2 3 4)
qed

lemma names_json:
  "endswith (fname old_batch) ''.json''" "endswith (fname pinned_batch) ''.json''"
  "endswith (fname boundary_batch) ''.json''" "endswith (fname gone_batch) ''.json''"
  "endswith (fname (example_batch ''feed_b.json'' as)) ''.json''"
  "\<not> endswith (fname notes_file) ''.json''"
  by (simp_all add: endswith_def old_batch_def pinned_batch_def boundary_batch_def
      gone_batch_def notes_file_def example_batch_def)

lemma mtimes:
  "mtime old_batch = Some old_mtime" "mtime pinned_batch = Some old_mtime"
  "mtime boundary_batch = Some week_ago" "mtime gone_batch = None"
  "mtime notes_file = Some old_mtime"
  "mtime (example_batch n as) = Some (dt_micro example_now)"
  by (simp_all add: old_batch_def pinned_batch_def boundary_batch_def
      gone_batch_def notes_file_def example_batch_def)

lemma removables:
  "removable old_batch" "\<not> removable pinned_batch" "removable boundary_batch"
  "removable gone_batch" "removable (example_batch n as)"
  by (simp_all add: old_batch_def pinned_batch_def boundary_batch_def
      gone_batch_def example_batch_def)

lemma old_before: "old_mtime < week_ago" "old_mtime < week_ago + 1000000"
  "\<not> dt_micro example_now < week_ago + 1000000"
  by (simp_all add: old_mtime_def week_ago_def dt_micro_example_now)

lemma statable_attic: "statable example_attic"
  by (simp add: statable_def glob_json_def example_attic_def names_json mtimes)

lemma scan_attic:
  "cleanup_scan week_ago (files example_attic)
   = ([pinned_batch, boundary_batch, example_batch ''feed_b.json'' [example_plain], notes_file],
      1, None)"
  by (simp add: example_attic_def names_json mtimes removables old_before week_ago_before_now)

lemma scan_attic_later:
  "cleanup_scan (week_ago + 1000000)
     [pinned_batch, boundary_batch, example_batch ''feed_b.json'' [example_plain], notes_file]
   = ([pinned_batch, example_batch ''feed_b.json'' [example_plain], notes_file], 1, None)"
  by (simp add: names_json mtimes removables old_before)

lemma cleanup_attic:
  "cleanup_old_articles example_attic example_now 7
   = (example_attic\<lparr>files := [pinned_batch, boundary_batch,
        example_batch ''feed_b.json'' [example_plain], notes_file]\<rparr>, None)"
  by (simp add: cleanup_old_articles_def cutoff_example scan_attic)

theorem cleanup_removes_old_removable_witness:
  "cutoff_date example_now 7 = Inr week_ago
   \<and> statable example_attic
   \<and> cleanup_old_articles example_attic example_now 7
       = (example_attic\<lparr>files := [pinned_batch, boundary_batch,
            example_batch ''feed_b.json'' [example_plain], notes_file]\<rparr>, None)
   \<and> removed_count example_attic example_now 7 = 1"
  using cleanup_removes_old_removable [OF cutoff_example statable_attic]
  by (simp add: cutoff_example statable_attic cleanup_attic removed_count_def scan_attic
      del: One_nat_def)

lemma cleanup_attic_later:
  "cleanup_old_articles
     (example_attic\<lparr>files := [pinned_batch, boundary_batch,
        example_batch ''feed_b.json'' [example_plain], notes_file]\<rparr>) example_later 7
   = (example_attic\<lparr>files := [pinned_batch,
        example_batch ''feed_b.json'' [example_plain], notes_file]\<rparr>, None)"
  by (simp add: cleanup_old_articles_def cutoff_later scan_attic_later del: cleanup_scan.simps)

lemma removed_attic_later:
  "removed_count
     (example_attic\<lparr>files := [pinned_batch, boundary_batch,
        example_batch ''feed_b.json'' [example_plain], notes_file]\<rparr>) example_later 7 = 1"
  by (simp add: removed_count_def cutoff_later scan_attic_later del: cleanup_scan.simps)

lemma old_in_dangling: "old_batch \<in> set (files example_attic_dangling)"
  by (simp add: example_attic_dangling_def)

lemma cutoff_far_future: "cutoff_date example_now (- 3000000) = Inl OverflowError"
  by (simp add: cutoff_date_def Let_def dt_micro_example_now dt_micro_min_stamp
      dt_micro_max_stamp microseconds_per_day_def)

lemma cleanup_far_future:
  "cleanup_old_articles example_attic example_now (- 3000000)
   = (example_attic, Some OverflowError)"
  by (simp add: cleanup_old_articles_def cutoff_far_future)

lemma cleanup_attic_dangling:
  "cleanup_old_articles example_attic_dangling example_now 7
   = (example_attic_dangling, Some OSError)"
  by (simp add: cleanup_old_articles_def cutoff_example example_attic_dangling_def
      names_json mtimes)

lemma boundary_distinct:
  "boundary_batch \<noteq> pinned_batch" "boundary_batch \<noteq> notes_file"
  "boundary_batch \<noteq> example_batch ''feed_b.json'' as"
  by (simp_all add: boundary_batch_def pinned_batch_def notes_file_def example_batch_def)

text \<open>
  C9 as stated fails. From a directory cleaned at \<open>example_now\<close> with a limit of seven
  days: a batch file of 1 January whose \<open>unlink\<close> raises is still there; the batch
  file modified exactly seven days before is kept, and a second run one second later
  removes it. With a limit of minus three million days every file is older than the
  cutoff, and the call raises \<open>OverflowError\<close> and removes none; and behind a batch
  file whose modification time cannot be read, an old batch file stays.
\<close>

theorem cleanup_keeps_undeletable_old_file:
  "cutoff_date example_now 7 = Inr week_ago
   \<and> endswith (fname pinned_batch) ''.json'' \<and> stale week_ago pinned_batch
   \<and> pinned_batch \<in> set (files (fst (cleanup_old_articles example_attic example_now 7)))
   \<and> boundary_batch \<in> set (files (fst (cleanup_old_articles example_attic example_now 7)))
   \<and> boundary_batch \<notin> set (files (fst (cleanup_old_articles
         (fst (cleanup_old_articles example_attic example_now 7)) example_later 7)))
   \<and> removed_count (fst (cleanup_old_articles example_attic example_now 7)) example_later 7 = 1
   \<and> cleanup_old_articles example_attic example_now (- 3000000)
       = (example_attic, Some OverflowError)
   \<and> stale week_ago old_batch \<and> old_batch \<in> set (files example_attic_dangling)
   \<and> cleanup_old_articles example_attic_dangling example_now 7
       = (example_attic_dangling, Some OSError)"
  by (simp add: cutoff_example names_json stale_def mtimes old_before cleanup_attic
      cleanup_attic_later removed_attic_later boundary_distinct cleanup_far_future
      cleanup_attic_dangling old_in_dangling)

section \<open>The latest articles\<close>

lemma sort_same_kind:
  "same_kind xs \<Longrightarrow>
   sort_scraped_desc xs = Inr (sort_key (\<lambda>a. - dt_micro (scraped_at a)) xs)"
  by (auto simp: same_kind_def sort_scraped_desc_def list_all_iff list_ex_iff)

lemma sort_other_kind: "\<not> same_kind xs \<Longrightarrow> sort_scraped_desc xs = Inl TypeError"
  by (auto simp: same_kind_def sort_scraped_desc_def list_all_iff list_ex_iff)

lemma same_kind_subset: "same_kind xs \<Longrightarrow> set ys \<subseteq> set xs \<Longrightarrow> same_kind ys"
  by (auto simp: same_kind_def list_all_iff)

lemma newest_first_sort: "newest_first (sort_key (\<lambda>a. - dt_micro (scraped_at a)) xs)"
proof -
  have "sorted (map (\<lambda>a. - dt_micro (scraped_at a)) (sort_key (\<lambda>a. - dt_micro (scraped_at a)) xs))"
    by (rule sorted_sort_key)
  then show ?thesis by (simp add: newest_first_def sorted_map)
qed





lemma scraped_instants:
  "dt_micro (scraped_at example_tech) = 63845755198250000"
  "dt_micro (scraped_at example_plain) = 63845755199000000"
  by (simp_all add: example_tech_def example_plain_def dt_micro_def ordinal_def
      days_before_year_def days_before_month_def days_in_month_def is_leap_def upt_rec)

lemma example_kinds:
  "\<not> aware (scraped_at example_tech)" "\<not> aware (scraped_at example_plain)"
  "aware (scraped_at example_aware)"
  by (simp_all add: aware_def example_tech_def example_plain_def example_aware_def)

lemma example_aware_valid: "valid_article example_aware"
  by (simp add: valid_article_def example_aware_def example_tech_def valid_datetime_def
      valid_offset_def days_in_month_def)

lemma example_blank_valid: "valid_article example_blank"
  by (simp add: valid_article_def example_blank_def example_tech_def valid_datetime_def
      valid_offset_def days_in_month_def)

lemma same_kind_examples: "same_kind [example_tech, example_plain]"
  by (simp add: same_kind_def example_kinds)

lemma sort_examples:
  "sort_scraped_desc [example_tech, example_plain] = Inr [example_plain, example_tech]"
  "sort_scraped_desc [example_tech] = Inr [example_tech]"
  "sort_scraped_desc [example_plain] = Inr [example_plain]"
  "sort_scraped_desc [example_tech, example_aware] = Inl TypeError"
  by (simp_all add: sort_scraped_desc_def example_kinds scraped_instants)

lemma load_example_mixed:
  "load_articles fromisoformat example_mixed example_now None None 7
   = Inr [example_tech, example_aware]"
proof -
  have "glob_json example_mixed = files example_mixed"
    by (simp add: glob_json_def example_mixed_def example_batch_def endswith_def)
  then have "load_articles fromisoformat example_mixed example_now None None 7
      = scan_files fromisoformat week_ago None (files example_mixed)"
    by (simp add: load_articles_def truthy_def bindE_def cutoff_example)
  also have "\<dots> = Inr [example_tech, example_aware]"
    by (simp add: example_mixed_def example_batch_def week_ago_before_now truthy_def
        bindE_def load_file_envelope example_aware_valid example_tech_valid)
  finally show ?thesis .
qed

lemma categories:
  "category example_tech = Some ''tech''" "category example_plain = None"
  "category example_blank = Some []" "category example_aware = Some ''tech''"
  by (simp_all add: example_tech_def example_plain_def example_blank_def example_aware_def)





section \<open>Articles by category\<close>

lemma map_of_add_to_bucket:
  "map_of (add_to_bucket k a d) k' =
   (if k' = k then Some ((case map_of d k of None \<Rightarrow> [] | Some xs \<Rightarrow> xs) @ [a])
    else map_of d k')"
  by (induction k a d rule: add_to_bucket.induct) auto

lemma keys_add_to_bucket: "fst ` set (add_to_bucket k a d) = insert k (fst ` set d)"
  by (induction k a d rule: add_to_bucket.induct) auto

lemma distinct_add_to_bucket:
  "distinct (map fst d) \<Longrightarrow> distinct (map fst (add_to_bucket k a d))"
  by (induction k a d rule: add_to_bucket.induct) (auto simp: keys_add_to_bucket)

lemma mset_add_to_bucket:
  "mset (concat (map snd (add_to_bucket k a d))) = mset (concat (map snd d)) + {#a#}"
  by (induction k a d rule: add_to_bucket.induct) auto

lemma distinct_fold_buckets:
  "distinct (map fst d) \<Longrightarrow>
   distinct (map fst (fold (\<lambda>a d. add_to_bucket (bucket_key a) a d) as d))"
  by (induction as arbitrary: d) (auto simp: distinct_add_to_bucket)

lemma mset_fold_buckets:
  "mset (concat (map snd (fold (\<lambda>a d. add_to_bucket (bucket_key a) a d) as d)))
   = mset (concat (map snd d)) + mset as"
  by (induction as arbitrary: d) (auto simp: mset_add_to_bucket)

lemma map_of_fold_buckets:
  "map_of (fold (\<lambda>a d. add_to_bucket (bucket_key a) a d) as d) k =
   (if map_of d k = None \<and> filter (\<lambda>a. bucket_key a = k) as = [] then None
    else Some ((case map_of d k of None \<Rightarrow> [] | Some xs \<Rightarrow> xs)
               @ filter (\<lambda>a. bucket_key a = k) as))"
  by (induction as arbitrary: d) (auto simp: map_of_add_to_bucket split: option.splits)

lemma distinct_group: "distinct (map fst (group_articles as))"
  by (simp add: group_articles_def distinct_fold_buckets)

lemma mset_group: "mset (concat (map snd (group_articles as))) = mset as"
  by (simp add: group_articles_def mset_fold_buckets)

lemma map_of_group:
  "map_of (group_articles as) k =
   (if filter (\<lambda>a. bucket_key a = k) as = [] then None
    else Some (filter (\<lambda>a. bucket_key a = k) as))"
  by (simp add: group_articles_def map_of_fold_buckets)

lemma bucket_of_group:
  assumes "(k, xs) \<in> set (group_articles as)"
  shows "xs = filter (\<lambda>a. bucket_key a = k) as" and "xs \<noteq> []"
proof -
  have "map_of (group_articles as) k = Some xs"
    using assms distinct_group by (simp add: map_of_eq_Some_iff)
  then show "xs = filter (\<lambda>a. bucket_key a = k) as" and "xs \<noteq> []"
    by (auto simp: map_of_group split: if_splits)
qed

lemma sort_buckets_same_kind:
  "list_all (\<lambda>p. same_kind (snd p)) d \<Longrightarrow>
   sort_buckets d =
   Inr (map (\<lambda>p. (fst p, sort_key (\<lambda>a. - dt_micro (scraped_at a)) (snd p))) d)"
  by (induction d rule: sort_buckets.induct) (auto simp: bindE_def sort_same_kind)

lemma mset_sorted_buckets:
  "mset (concat (map snd (map (\<lambda>p. (fst p, sort_key f (snd p))) d)))
   = mset (concat (map snd d))"
  by (induction d) auto

text \<open>
  C4 (as the code has it). When the default load succeeds and the \<open>scraped_at\<close>
  values of the articles that share a bucket can be compared,
  \<open>get_articles_by_category\<close> returns buckets with distinct
  keys; the bucket of key \<open>k\<close> is not empty, is sorted newest first and holds exactly
  the loaded articles whose \<open>bucket_key\<close> is \<open>k\<close>; every loaded article is in the
  bucket of its \<open>bucket_key\<close>, which is its category when that is a non-empty string
  and \<open>uncategorized\<close> otherwise; and the buckets together hold the loaded articles,
  each as often as it was loaded.
\<close>

theorem articles_by_category_partition:
  assumes "load_articles parse st now None None 7 = Inr loaded"
    and "\<And>k. same_kind (filter (\<lambda>a. bucket_key a = k) loaded)"
  shows "\<exists>buckets. get_articles_by_category parse st now = Inr buckets
       \<and> distinct (map fst buckets)
       \<and> list_all (\<lambda>b. snd b \<noteq> [] \<and> newest_first (snd b) \<and>
             mset (snd b) = mset (filter (\<lambda>a. bucket_key a = fst b) loaded)) buckets
       \<and> list_all (\<lambda>a. \<exists>xs. (bucket_key a, xs) \<in> set buckets \<and> a \<in> set xs) loaded
       \<and> mset (concat (map snd buckets)) = mset loaded"
proof -
  let ?f = "\<lambda>a. - dt_micro (scraped_at a)"
  let ?g = "\<lambda>p. (fst p, sort_key ?f (snd p))"
  define buckets where "buckets = map ?g (group_articles loaded)"
  have k: "list_all (\<lambda>p. same_kind (snd p)) (group_articles loaded)"
    unfolding list_all_iff
  proof
    fix p assume p: "p \<in> set (group_articles loaded)"
    then have "(fst p, snd p) \<in> set (group_articles loaded)" by simp
    then have "snd p = filter (\<lambda>a. bucket_key a = fst p) loaded" by (rule bucket_of_group)
    with assms(2) [of "fst p"] show "same_kind (snd p)" by simp
  qed
  have r: "get_articles_by_category parse st now = Inr buckets"
    by (simp add: get_articles_by_category_def assms(1) bindE_def
        sort_buckets_same_kind [OF k] buckets_def)
  have d: "distinct (map fst buckets)"
    by (simp add: buckets_def comp_def distinct_group)
  have b: "list_all (\<lambda>b. snd b \<noteq> [] \<and> newest_first (snd b) \<and>
             mset (snd b) = mset (filter (\<lambda>a. bucket_key a = fst b) loaded)) buckets"
    unfolding list_all_iff
  proof
    fix b assume "b \<in> set buckets"
    then obtain p where p: "p \<in> set (group_articles loaded)" and bp: "b = ?g p"
      by (auto simp: buckets_def)
    from p have "(fst p, snd p) \<in> set (group_articles loaded)" by simp
    then have "snd p = filter (\<lambda>a. bucket_key a = fst p) loaded" and "snd p \<noteq> []"
      by (rule bucket_of_group)+
    then show "snd b \<noteq> [] \<and> newest_first (snd b) \<and>
             mset (snd b) = mset (filter (\<lambda>a. bucket_key a = fst b) loaded)"
      by (simp add: bp newest_first_sort) (metis length_0_conv length_sort)
  qed
  have m: "mset (concat (map snd buckets)) = mset loaded"
    by (simp only: buckets_def mset_sorted_buckets mset_group)
  have a: "list_all (\<lambda>a. \<exists>xs. (bucket_key a, xs) \<in> set buckets \<and> a \<in> set xs) loaded"
    unfolding list_all_iff
  proof
    fix a assume a: "a \<in> set loaded"
    let ?xs = "filter (\<lambda>x. bucket_key x = bucket_key a) loaded"
    from a have ne: "?xs \<noteq> []" by (auto simp: filter_empty_conv)
    then have "map_of (group_articles loaded) (bucket_key a) = Some ?xs"
      by (simp add: map_of_group)
    then have "(bucket_key a, ?xs) \<in> set (group_articles loaded)" by (rule map_of_SomeD)
    then have "?g (bucket_key a, ?xs) \<in> ?g ` set (group_articles loaded)" by (rule imageI)
    then have "(bucket_key a, sort_key ?f ?xs) \<in> set buckets" by (simp add: buckets_def)
    moreover have "a \<in> set (sort_key ?f ?xs)" using a by simp
    ultimately show "\<exists>xs. (bucket_key a, xs) \<in> set buckets \<and> a \<in> set xs" by blast
  qed
  from r d b a m show ?thesis by blast
qed

lemma load_example_blanks:
  "load_articles fromisoformat example_blanks example_now None None 7
   = Inr [example_blank, example_plain]"
proof -
  have "glob_json example_blanks = files example_blanks"
    by (simp add: glob_json_def example_blanks_def example_batch_def endswith_def)
  then have "load_articles fromisoformat example_blanks example_now None None 7
      = scan_files fromisoformat week_ago None (files example_blanks)"
    by (simp add: load_articles_def truthy_def bindE_def cutoff_example)
  also have "\<dots> = Inr [example_blank, example_plain]"
    by (simp add: example_blanks_def example_batch_def week_ago_before_now truthy_def
        bindE_def load_file_envelope example_blank_valid example_plain_valid)
  finally show ?thesis .
qed

lemma bucket_keys:
  "bucket_key example_tech = ''tech''" "bucket_key example_plain = ''uncategorized''"
  "bucket_key example_blank = ''uncategorized''" "bucket_key example_aware = ''tech''"
  by (simp_all add: bucket_key_def truthy_def categories)

lemma group_examples:
  "group_articles [example_tech, example_plain]
   = [(''tech'', [example_tech]), (''uncategorized'', [example_plain])]"
  "group_articles [example_blank, example_plain]
   = [(''uncategorized'', [example_blank, example_plain])]"
  "group_articles [example_tech, example_aware] = [(''tech'', [example_tech, example_aware])]"
  by (simp_all add: group_articles_def bucket_keys)

lemma sort_blank:
  "sort_scraped_desc [example_blank, example_plain] = Inr [example_plain, example_blank]"
proof -
  have "scraped_at example_blank = scraped_at example_tech"
    by (simp add: example_blank_def)
  then show ?thesis
    by (simp add: sort_scraped_desc_def example_kinds scraped_instants)
qed

lemma by_category_examples:
  "get_articles_by_category fromisoformat example_directory example_now
   = Inr [(''tech'', [example_tech]), (''uncategorized'', [example_plain])]"
  "get_articles_by_category fromisoformat example_blanks example_now
   = Inr [(''uncategorized'', [example_plain, example_blank])]"
  "get_articles_by_category fromisoformat example_mixed example_now = Inl TypeError"
  "get_articles_by_category fromisoformat example_dangling example_now = Inl OSError"
  by (simp_all add: get_articles_by_category_def load_example_directory load_example_blanks
      load_example_mixed load_example_dangling bindE_def group_examples sort_examples
      sort_blank)

theorem articles_by_category_partition_witness:
  "load_articles fromisoformat example_directory example_now None None 7
     = Inr [example_tech, example_plain]
   \<and> same_kind (filter (\<lambda>a. bucket_key a = ''tech'') [example_tech, example_plain])
   \<and> same_kind (filter (\<lambda>a. bucket_key a = ''uncategorized'') [example_tech, example_plain])
   \<and> get_articles_by_category fromisoformat example_directory example_now
       = Inr [(''tech'', [example_tech]), (''uncategorized'', [example_plain])]
   \<and> category example_tech = Some ''tech''
   \<and> category example_plain = None"
proof -
  have k: "same_kind (filter (\<lambda>a. bucket_key a = k) [example_tech, example_plain])" for k
    using same_kind_examples by (rule same_kind_subset) auto
  from articles_by_category_partition
    [of fromisoformat example_directory example_now "[example_tech, example_plain]",
     OF load_example_directory k]
  show ?thesis
    using k [of "''tech''"] k [of "''uncategorized''"] load_example_directory
      by_category_examples(1) categories(1,2)
    by (intro conjI) assumption+
qed

text \<open>
  C4 as stated fails. An article whose category is the empty string is not in a bucket
  keyed by its category: it shares the bucket \<open>uncategorized\<close> with the article that
  has no category. And the call raises, returning no bucket, when a bucket mixes
  offset-naive and offset-aware \<open>scraped_at\<close> values and when the modification time
  of a batch file cannot be read.
\<close>

theorem empty_category_lands_in_uncategorized:
  "load_articles fromisoformat example_blanks example_now None None 7
     = Inr [example_blank, example_plain]
   \<and> category example_blank = Some []
   \<and> category example_plain = None
   \<and> get_articles_by_category fromisoformat example_blanks example_now
       = Inr [(''uncategorized'', [example_plain, example_blank])]
   \<and> get_articles_by_category fromisoformat example_mixed example_now = Inl TypeError
   \<and> get_articles_by_category fromisoformat example_dangling example_now = Inl OSError"
  by (simp add: load_example_blanks categories by_category_examples)

section \<open>Scraping a feed\<close>













section \<open>Processing an article\<close>

lemma touches_only_refl: "touches_only n h h"
  by (simp add: touches_only_def same_scraped_fields_def)

lemma touches_only_trans:
  "touches_only n h h' \<Longrightarrow> touches_only n h' h'' \<Longrightarrow> touches_only n h h''"
  by (simp add: touches_only_def same_scraped_fields_def)

lemma touches_only_set_summary: "n < length (objs h) \<Longrightarrow> touches_only n h (set_summary h n s)"
  by (simp add: touches_only_def set_summary_def same_scraped_fields_def)

lemma touches_only_set_category: "n < length (objs h) \<Longrightarrow> touches_only n h (set_category h n c)"
  by (simp add: touches_only_def set_category_def same_scraped_fields_def)

lemma summarization_touches:
  "n < length (objs h) \<Longrightarrow> summarization p h a n s m = Inr h' \<Longrightarrow> touches_only n h h'"
  by (auto simp: summarization_def bindE_def touches_only_refl touches_only_set_summary
      split: option.splits if_splits sum.splits)

lemma categorization_touches:
  "n < length (objs h) \<Longrightarrow> categorization p h a n c = Inr h' \<Longrightarrow> touches_only n h h'"
  by (auto simp: categorization_def bindE_def touches_only_refl touches_only_set_category
      split: option.splits if_splits sum.splits)

lemma process_article_touches:
  "\<exists>h0. model_copy h a = (h0, length (objs h)) \<and>
        touches_only (length (objs h)) h0 (fst (process_article p h a s c m)) \<and>
        snd (process_article p h a s c m) = length (objs h)"
proof -
  let ?n = "length (objs h)"
  obtain h0 where h0: "model_copy h a = (h0, ?n)" by (simp add: model_copy_def)
  then have n: "?n < length (objs h0)" by (auto simp: model_copy_def)
  show ?thesis
  proof (cases "summarization p h0 a ?n s m")
    case (Inl e)
    then show ?thesis by (simp add: process_article_def h0 touches_only_refl)
  next
    case (Inr h1)
    from summarization_touches [OF n Inr] have t1: "touches_only ?n h0 h1" .
    then have n1: "?n < length (objs h1)" using n by (simp add: touches_only_def)
    show ?thesis
    proof (cases "categorization p h1 a ?n c")
      case (Inl e)
      then show ?thesis using Inr t1 by (simp add: process_article_def h0)
    next
      case (Inr h2)
      from categorization_touches [OF n1 Inr] t1 have "touches_only ?n h0 h2"
        by (blast intro: touches_only_trans)
      then show ?thesis using Inr \<open>summarization p h0 a ?n s m = Inr h1\<close>
        by (simp add: process_article_def h0)
    qed
  qed
qed

text \<open>
  C2. \<open>process_article\<close> returns a new object. Every object that existed before the
  call, the argument among them, has all its fields unchanged afterwards, and no
  \<open>tags\<close> list has changed; the returned object agrees with the argument on every
  field except \<open>summary\<close> and \<open>category\<close>. This holds whether the backends return
  or raise.
\<close>

theorem process_article_leaves_argument_unchanged:
  assumes "a < length (objs h)"
  shows "take (length (objs h)) (objs (fst (process_article p h a s c m))) = objs h
    \<and> objs (fst (process_article p h a s c m)) ! a = objs h ! a
    \<and> tag_lists (fst (process_article p h a s c m)) = tag_lists h
    \<and> snd (process_article p h a s c m) = length (objs h)
    \<and> length (objs (fst (process_article p h a s c m))) = Suc (length (objs h))
    \<and> same_scraped_fields (objs h ! a)
         (objs (fst (process_article p h a s c m)) ! snd (process_article p h a s c m))"
proof -
  let ?n = "length (objs h)"
  let ?h' = "fst (process_article p h a s c m)"
  obtain h0 where h0: "model_copy h a = (h0, ?n)" and t: "touches_only ?n h0 ?h'"
    and r: "snd (process_article p h a s c m) = ?n"
    using process_article_touches [of h a p s c m] by blast
  from h0 have o: "objs h0 = objs h @ [objs h ! a]" and l: "tag_lists h0 = tag_lists h"
    by (auto simp: model_copy_def)
  from t o have 1: "take ?n (objs ?h') = objs h" by (simp add: touches_only_def)
  have "objs ?h' ! a = take ?n (objs ?h') ! a" using assms by simp
  with 1 have 2: "objs ?h' ! a = objs h ! a" by simp
  from t l have 3: "tag_lists ?h' = tag_lists h" by (simp add: touches_only_def)
  from t o have 5: "length (objs ?h') = Suc ?n" by (simp add: touches_only_def)
  from t o have 6: "same_scraped_fields (objs h ! a) (objs ?h' ! ?n)"
    by (simp add: touches_only_def)
  from 1 2 3 r 5 6 show ?thesis by simp
qed

lemma process_example:
  "process_article example_processor example_heap 0 True True 200
   = (\<lparr>objs = [example_object, example_object\<lparr>o_summary := Some ''A new''\<rparr>],
       tag_lists = [[''hardware'']]\<rparr>, 1)"
  by (simp add: process_article_def model_copy_def summarization_def categorization_def
      example_processor_def example_heap_def bindE_def set_summary_def example_object_def)

theorem process_article_leaves_argument_unchanged_witness:
  "(0::nat) < length (objs example_heap)
   \<and> process_article example_processor example_heap 0 True True 200
       = (\<lparr>objs = [example_object, example_object\<lparr>o_summary := Some ''A new''\<rparr>],
           tag_lists = [[''hardware'']]\<rparr>, 1)
   \<and> objs example_heap ! 0 = example_object
   \<and> same_scraped_fields example_object (example_object\<lparr>o_summary := Some ''A new''\<rparr>)"
proof -
  have l: "(0::nat) < length (objs example_heap)" and o: "objs example_heap ! 0 = example_object"
    by (simp_all add: example_heap_def)
  note t = process_article_leaves_argument_unchanged
    [OF l, of example_processor True True 200]
  have "same_scraped_fields example_object (example_object\<lparr>o_summary := Some ''A new''\<rparr>)"
    using t [THEN conjunct2, THEN conjunct2, THEN conjunct2, THEN conjunct2, THEN conjunct2]
    unfolding process_example o by simp
  with l o process_example show ?thesis by (intro conjI) assumption+
qed


end
